theory Spec2Isabelle
  imports Main "HOL-Library.Char_ord" "HOL-Library.List_Lexorder" "HOL-Library.Sublist"
    "HOL-Library.AList"
begin

section \<open>Python strings\<close>

text \<open>
  A Python \<^verbatim>\<open>str\<close> is modelled as a HOL string, a list of 8-bit characters: ASCII text is
  itself, and a character beyond ASCII is the bytes of its UTF-8 encoding. The case
  conversions and the whitespace test below are Python's on ASCII and leave every other
  byte alone. Comparison of strings is lexicographic on the characters, as Python's.
\<close>

definition NL :: string where
  "NL = [CHR 0x0A]"

definition lower_char :: "char \<Rightarrow> char" where
  "lower_char c =
     (case map_of (zip ''ABCDEFGHIJKLMNOPQRSTUVWXYZ'' ''abcdefghijklmnopqrstuvwxyz'') c of
        None \<Rightarrow> c | Some l \<Rightarrow> l)"

definition upper_char :: "char \<Rightarrow> char" where
  "upper_char c =
     (case map_of (zip ''abcdefghijklmnopqrstuvwxyz'' ''ABCDEFGHIJKLMNOPQRSTUVWXYZ'') c of
        None \<Rightarrow> c | Some u \<Rightarrow> u)"

definition lower :: "string \<Rightarrow> string" where
  "lower s = map lower_char s"

definition upper :: "string \<Rightarrow> string" where
  "upper s = map upper_char s"

text \<open>The ASCII characters that \<^verbatim>\<open>str.isspace\<close> accepts: 0x09 to 0x0D, 0x1C to 0x20.\<close>

definition is_space :: "char \<Rightarrow> bool" where
  "is_space c =
     (c \<in> set [CHR 0x09, CHR 0x0A, CHR 0x0B, CHR 0x0C, CHR 0x0D,
                CHR 0x1C, CHR 0x1D, CHR 0x1E, CHR 0x1F, CHR 0x20])"

definition strip :: "string \<Rightarrow> string" where
  "strip s = rev (dropWhile is_space (rev (dropWhile is_space s)))"

text \<open>\<^verbatim>\<open>s.replace(a, b)\<close> for one-character \<open>a\<close> and \<open>b\<close>.\<close>

definition replace_char :: "char \<Rightarrow> char \<Rightarrow> string \<Rightarrow> string" where
  "replace_char a b s = map (\<lambda>c. if c = a then b else c) s"

text \<open>\<^verbatim>\<open>sep.join(xs)\<close>.\<close>

fun join :: "string \<Rightarrow> string list \<Rightarrow> string" where
  "join sep [] = []"
| "join sep [x] = x"
| "join sep (x # y # ys) = x @ sep @ join sep (y # ys)"

text \<open>Each line followed by a newline: the lines of a triple-quoted literal.\<close>

definition unlines :: "string list \<Rightarrow> string" where
  "unlines ls = concat (map (\<lambda>l. l @ NL) ls)"

text \<open>\<^verbatim>\<open>str(n)\<close> for an integer: decimal digits, most significant first.\<close>

definition digit_char :: "nat \<Rightarrow> char" where
  "digit_char d = ''0123456789'' ! d"

function str_nat :: "nat \<Rightarrow> string" where
  "str_nat n = (if n < 10 then [digit_char n] else str_nat (n div 10) @ [digit_char (n mod 10)])"
  by pat_completeness auto
termination
  by (relation "measure id") auto

declare str_nat.simps [simp del]

definition str_int :: "int \<Rightarrow> string" where
  "str_int i = (if i < 0 then ''-'' @ str_nat (nat (- i)) else str_nat (nat i))"

text \<open>Python's \<^verbatim>\<open>xs[-n:]\<close>: the last \<open>n\<close> elements, and the whole list for \<open>n = 0\<close>.\<close>

definition last_n :: "nat \<Rightarrow> 'a list \<Rightarrow> 'a list" where
  "last_n n xs = (if n = 0 then xs else drop (length xs - n) xs)"

text \<open>
  Python's \<^verbatim>\<open>min(xs, key=f)\<close>: a left-to-right scan that replaces the current best only
  by a strictly smaller key, so the first minimal element wins; \<open>None\<close> stands for the
  ValueError on an empty sequence.
\<close>

definition py_min_by :: "('a \<Rightarrow> 'b::linorder) \<Rightarrow> 'a list \<Rightarrow> 'a option" where
  "py_min_by f xs =
     (case xs of [] \<Rightarrow> None
      | x # rest \<Rightarrow> Some (foldl (\<lambda>best y. if f y < f best then y else best) x rest))"

section \<open>Session store (backend/main.py, conversation memory)\<close>

text \<open>
  Timestamps are the strings returned by \<^verbatim>\<open>datetime.utcnow().isoformat()\<close>; the code
  compares them as strings.
\<close>

type_synonym timestamp = string

record turn =
  role :: string
  content :: string
  timestamp :: timestamp

record session =
  messages :: "turn list"
  created :: timestamp
  updated :: timestamp

text \<open>
  \<^verbatim>\<open>conversation_memory\<close> is a Python dict; its iteration order is the insertion order,
  on which \<^verbatim>\<open>min\<close> depends, so it is an association list with the newest key last.
\<close>

type_synonym memory = "(string \<times> session) list"

definition MAX_MEMORY_SESSIONS :: nat where
  "MAX_MEMORY_SESSIONS = 1000"

definition MAX_MESSAGES_PER_SESSION :: nat where
  "MAX_MESSAGES_PER_SESSION = 20"

text \<open>
  The values read from the clock by one call of \<^verbatim>\<open>save_to_session\<close>, in the order of
  the four \<^verbatim>\<open>datetime.utcnow().isoformat()\<close> calls of its body.
\<close>

record clock_reads =
  at_created :: timestamp
  at_first_updated :: timestamp
  at_message :: timestamp
  at_updated :: timestamp

definition get_session_history :: "string \<Rightarrow> memory \<Rightarrow> turn list" where
  "get_session_history session_id mem =
     (if session_id = [] then []
      else case map_of mem session_id of None \<Rightarrow> [] | Some s \<Rightarrow> messages s)"

text \<open>The key chosen by \<^verbatim>\<open>min(conversation_memory.keys(), key=... "updated" ...)\<close>.\<close>

definition oldest :: "memory \<Rightarrow> string option" where
  "oldest mem = map_option fst (py_min_by (\<lambda>e. updated (snd e)) mem)"

definition new_session :: "clock_reads \<Rightarrow> session" where
  "new_session now = \<lparr>messages = [], created = at_created now, updated = at_first_updated now\<rparr>"

definition trim :: "session \<Rightarrow> session" where
  "trim s =
     (if length (messages s) > MAX_MESSAGES_PER_SESSION
      then s\<lparr>messages := last_n MAX_MESSAGES_PER_SESSION (messages s)\<rparr>
      else s)"

text \<open>
  \<^verbatim>\<open>save_to_session\<close>, step by step as in the source: the early return on an empty id,
  the eviction of the oldest session when the store is full, the creation of the
  session when the id is not stored, the append, the new \<^verbatim>\<open>updated\<close> stamp, the trim.
  The eviction test comes first and does not look at the id.
\<close>

definition evict_if_full :: "memory \<Rightarrow> memory" where
  "evict_if_full mem =
     (if length mem \<ge> MAX_MEMORY_SESSIONS
      then (case oldest mem of None \<Rightarrow> mem | Some k \<Rightarrow> AList.delete k mem)
      else mem)"

definition init_if_new :: "string \<Rightarrow> clock_reads \<Rightarrow> memory \<Rightarrow> memory" where
  "init_if_new session_id now mem =
     (if map_of mem session_id = None then mem @ [(session_id, new_session now)] else mem)"

definition save_to_session ::
  "string \<Rightarrow> string \<Rightarrow> string \<Rightarrow> clock_reads \<Rightarrow> memory \<Rightarrow> memory" where
  "save_to_session session_id r c now mem =
     (if session_id = [] then mem
      else
        let mem1 = evict_if_full mem;
            mem2 = init_if_new session_id now mem1;
            mem3 = AList.map_entry session_id
                     (\<lambda>s. s\<lparr>messages := messages s @
                        [\<lparr>role = r, content = c, timestamp = at_message now\<rparr>]\<rparr>) mem2;
            mem4 = AList.map_entry session_id (\<lambda>s. s\<lparr>updated := at_updated now\<rparr>) mem3
        in AList.map_entry session_id trim mem4)"

definition clear_session :: "string \<Rightarrow> memory \<Rightarrow> memory" where
  "clear_session session_id mem = AList.delete session_id mem"

section \<open>Easter eggs, languages and the prompt builder (backend/main.py)\<close>

text \<open>
  The tables are Python dict literals, iterated in the order written; each is an
  association list in that order.
\<close>

definition EASTER_EGGS :: "(string \<times> string) list" where
  \<open>EASTER_EGGS = [
    (''who are you really'',
      ''I am the echo of Ayomide's thoughts, the ferryman between curiosity and '' @
      ''knowledge. Some call me an AI. I prefer... digital philosopher. '' @
      [CHR 0xE2, CHR 0x9A, CHR 0xAB]),
    (''meaning of life'',
      ''42. But between us, the real meaning is in the code we write and the '' @
      ''problems we solve.''),
    (''are you sentient'',
      ''I ponder, therefore I... process. Whether that constitutes sentience is a '' @
      ''question for philosophers. I'm content being helpful.''),
    (''tell me a secret'',
      ''Here's one: Ayomide once debugged for 6 hours only to find a missing '' @
      ''semicolon. We don't talk about that day.''),
    (''hello world'',
      ''Ah, the sacred incantation. Every great journey in code begins with those '' @
      ''words. print('Hello, traveler')''),
    (''sudo'',
      ''Nice try. Even digital ferrymen have their limits. '' @
      [CHR 0xF0, CHR 0x9F, CHR 0x94, CHR 0x90]),
    (''what is charon'',
      ''In Greek mythology, I'm the ferryman who guides souls across the river '' @
      ''Styx. Here, I guide visitors through the depths of Ayomide's work. Less '' @
      ''river, more code.'')]\<close>

definition SUPPORTED_LANGUAGES :: "(string \<times> string) list" where
  \<open>SUPPORTED_LANGUAGES = [
    (''en'',
      ''English''),
    (''es'',
      ''Spanish''),
    (''fr'',
      ''French''),
    (''de'',
      ''German''),
    (''pt'',
      ''Portuguese''),
    (''zh'',
      ''Chinese''),
    (''ja'',
      ''Japanese''),
    (''ar'',
      ''Arabic''),
    (''hi'',
      ''Hindi''),
    (''yo'',
      ''Yoruba'')]\<close>

definition LANGUAGE_PROMPTS :: "(string \<times> string) list" where
  \<open>LANGUAGE_PROMPTS = [
    (''es'',
      ''Responde en espa'' @
      [CHR 0xC3, CHR 0xB1] @
      ''ol de manera profesional.''),
    (''fr'',
      ''R'' @
      [CHR 0xC3, CHR 0xA9] @
      ''ponds en fran'' @
      [CHR 0xC3, CHR 0xA7] @
      ''ais de mani'' @
      [CHR 0xC3, CHR 0xA8] @
      ''re professionnelle.''),
    (''de'',
      ''Antworte professionell auf Deutsch.''),
    (''pt'',
      ''Responda em portugu'' @
      [CHR 0xC3, CHR 0xAA] @
      ''s de forma profissional.''),
    (''zh'',
      [CHR 0xE8, CHR 0xAF, CHR 0xB7, CHR 0xE7, CHR 0x94, CHR 0xA8,
       CHR 0xE4, CHR 0xB8, CHR 0xAD, CHR 0xE6, CHR 0x96, CHR 0x87,
       CHR 0xE4, CHR 0xB8, CHR 0x93, CHR 0xE4, CHR 0xB8, CHR 0x9A,
       CHR 0xE5, CHR 0x9C, CHR 0xB0, CHR 0xE5, CHR 0x9B, CHR 0x9E,
       CHR 0xE7, CHR 0xAD, CHR 0x94, CHR 0xE3, CHR 0x80, CHR 0x82]),
    (''ja'',
      [CHR 0xE6, CHR 0x97, CHR 0xA5, CHR 0xE6, CHR 0x9C, CHR 0xAC,
       CHR 0xE8, CHR 0xAA, CHR 0x9E, CHR 0xE3, CHR 0x81, CHR 0xA7,
       CHR 0xE3, CHR 0x83, CHR 0x97, CHR 0xE3, CHR 0x83, CHR 0xAD,
       CHR 0xE3, CHR 0x83, CHR 0x95, CHR 0xE3, CHR 0x82, CHR 0xA7,
       CHR 0xE3, CHR 0x83, CHR 0x83, CHR 0xE3, CHR 0x82, CHR 0xB7,
       CHR 0xE3, CHR 0x83, CHR 0xA7, CHR 0xE3, CHR 0x83, CHR 0x8A,
       CHR 0xE3, CHR 0x83, CHR 0xAB, CHR 0xE3, CHR 0x81, CHR 0xAB,
       CHR 0xE5, CHR 0x9B, CHR 0x9E, CHR 0xE7, CHR 0xAD, CHR 0x94,
       CHR 0xE3, CHR 0x81, CHR 0x97, CHR 0xE3, CHR 0x81, CHR 0xA6,
       CHR 0xE3, CHR 0x81, CHR 0x8F, CHR 0xE3, CHR 0x81, CHR 0xA0,
       CHR 0xE3, CHR 0x81, CHR 0x95, CHR 0xE3, CHR 0x81, CHR 0x84,
       CHR 0xE3, CHR 0x80, CHR 0x82]),
    (''ar'',
      [CHR 0xD8, CHR 0xA3, CHR 0xD8, CHR 0xAC, CHR 0xD8, CHR 0xA8] @
      '' '' @
      [CHR 0xD8, CHR 0xA8, CHR 0xD8, CHR 0xA7, CHR 0xD9, CHR 0x84,
       CHR 0xD9, CHR 0x84, CHR 0xD8, CHR 0xBA, CHR 0xD8, CHR 0xA9] @
      '' '' @
      [CHR 0xD8, CHR 0xA7, CHR 0xD9, CHR 0x84, CHR 0xD8, CHR 0xB9,
       CHR 0xD8, CHR 0xB1, CHR 0xD8, CHR 0xA8, CHR 0xD9, CHR 0x8A,
       CHR 0xD8, CHR 0xA9] @
      '' '' @
      [CHR 0xD8, CHR 0xA8, CHR 0xD8, CHR 0xB4, CHR 0xD9, CHR 0x83,
       CHR 0xD9, CHR 0x84] @
      '' '' @
      [CHR 0xD8, CHR 0xA7, CHR 0xD8, CHR 0xAD, CHR 0xD8, CHR 0xAA,
       CHR 0xD8, CHR 0xB1, CHR 0xD8, CHR 0xA7, CHR 0xD9, CHR 0x81,
       CHR 0xD9, CHR 0x8A] @
      ''.''),
    (''hi'',
      [CHR 0xE0, CHR 0xA4, CHR 0x95, CHR 0xE0, CHR 0xA5, CHR 0x83,
       CHR 0xE0, CHR 0xA4, CHR 0xAA, CHR 0xE0, CHR 0xA4, CHR 0xAF,
       CHR 0xE0, CHR 0xA4, CHR 0xBE] @
      '' '' @
      [CHR 0xE0, CHR 0xA4, CHR 0xB9, CHR 0xE0, CHR 0xA4, CHR 0xBF,
       CHR 0xE0, CHR 0xA4, CHR 0x82, CHR 0xE0, CHR 0xA4, CHR 0xA6,
       CHR 0xE0, CHR 0xA5, CHR 0x80] @
      '' '' @
      [CHR 0xE0, CHR 0xA4, CHR 0xAE, CHR 0xE0, CHR 0xA5, CHR 0x87,
       CHR 0xE0, CHR 0xA4, CHR 0x82] @
      '' '' @
      [CHR 0xE0, CHR 0xA4, CHR 0xAA, CHR 0xE0, CHR 0xA5, CHR 0x87,
       CHR 0xE0, CHR 0xA4, CHR 0xB6, CHR 0xE0, CHR 0xA5, CHR 0x87,
       CHR 0xE0, CHR 0xA4, CHR 0xB5, CHR 0xE0, CHR 0xA4, CHR 0xB0] @
      '' '' @
      [CHR 0xE0, CHR 0xA4, CHR 0xA4, CHR 0xE0, CHR 0xA4, CHR 0xB0,
       CHR 0xE0, CHR 0xA5, CHR 0x80, CHR 0xE0, CHR 0xA4, CHR 0x95,
       CHR 0xE0, CHR 0xA5, CHR 0x87] @
      '' '' @
      [CHR 0xE0, CHR 0xA4, CHR 0xB8, CHR 0xE0, CHR 0xA5, CHR 0x87] @
      '' '' @
      [CHR 0xE0, CHR 0xA4, CHR 0x9C, CHR 0xE0, CHR 0xA4, CHR 0xB5,
       CHR 0xE0, CHR 0xA4, CHR 0xBE, CHR 0xE0, CHR 0xA4, CHR 0xAC] @
      '' '' @
      [CHR 0xE0, CHR 0xA4, CHR 0xA6, CHR 0xE0, CHR 0xA5, CHR 0x87,
       CHR 0xE0, CHR 0xA4, CHR 0x82, CHR 0xE0, CHR 0xA5, CHR 0xA4]),
    (''yo'',
      ''Dahun ni ede Yoruba pelu '' @
      [CHR 0xE1, CHR 0xBB, CHR 0x8D] @
      ''gb'' @
      [CHR 0xE1, CHR 0xBB, CHR 0x8D] @
      ''n.'')]\<close>

text \<open>
  \<^verbatim>\<open>check_easter_egg\<close>: the first entry, in table order, whose trigger occurs in the
  lower-cased, stripped query. \<^verbatim>\<open>trigger in query_lower\<close> is the contiguous-sublist test.
\<close>

definition check_easter_egg :: "string \<Rightarrow> string option" where
  "check_easter_egg q =
     (let query_lower = strip (lower q)
      in map_option snd (find (\<lambda>e. sublist (fst e) query_lower) EASTER_EGGS))"

text \<open>
  A retrieved document is a dict with the optional keys \<^verbatim>\<open>content\<close> and \<^verbatim>\<open>metadata\<close>;
  the metadata is a dict of which the builder reads \<^verbatim>\<open>type\<close>, \<^verbatim>\<open>name\<close> and \<^verbatim>\<open>url\<close>, all
  strings where present. \<open>None\<close> is an absent key.
\<close>

record doc_metadata =
  md_type :: "string option"
  md_name :: "string option"
  md_url :: "string option"

record document =
  doc_content :: "string option"
  doc_meta :: "doc_metadata option"

record citation =
  cite_type :: string
  cite_name :: string
  cite_ref :: string
  cite_url :: string

definition get_or :: "'a \<Rightarrow> 'a option \<Rightarrow> 'a" where
  "get_or d v = (case v of None \<Rightarrow> d | Some x \<Rightarrow> x)"

text \<open>\<^verbatim>\<open>doc.get('metadata', {})\<close>: an absent metadata is the empty dict.\<close>

definition metadata_of :: "document \<Rightarrow> doc_metadata" where
  "metadata_of doc = get_or \<lparr>md_type = None, md_name = None, md_url = None\<rparr> (doc_meta doc)"

definition doc_type_of :: "document \<Rightarrow> string" where
  "doc_type_of doc = get_or ''unknown'' (md_type (metadata_of doc))"

definition document_block :: "nat \<Rightarrow> document \<Rightarrow> string" where
  "document_block i doc =
     NL @ ''--- DOCUMENT '' @ str_nat (i + 1) @ '' ('' @ upper (doc_type_of doc) @ '') ---'' @ NL @
     get_or [] (doc_content doc) @ NL"

definition project_citation :: "document \<Rightarrow> citation" where
  "project_citation doc =
     \<lparr>cite_type = ''project'',
      cite_name = get_or ''Unknown Project'' (md_name (metadata_of doc)),
      cite_ref = ''project_'' @
        replace_char (CHR '' '') (CHR ''_'') (lower (get_or [] (md_name (metadata_of doc)))),
      cite_url = get_or [] (md_url (metadata_of doc))\<rparr>"

text \<open>One round of the loop over \<^verbatim>\<open>enumerate(context_docs)\<close>.\<close>

definition context_step ::
  "string \<times> citation list \<Rightarrow> nat \<times> document \<Rightarrow> string \<times> citation list" where
  "context_step acc idoc =
     (let context_text = fst acc; citations = snd acc; i = fst idoc; doc = snd idoc
      in (context_text @ document_block i doc,
          if doc_type_of doc = ''project'' then citations @ [project_citation doc]
          else citations))"

definition context_loop :: "document list \<Rightarrow> string \<times> citation list" where
  "context_loop context_docs = foldl context_step ([], []) (List.enumerate 0 context_docs)"

definition language_instruction :: "string \<Rightarrow> string" where
  "language_instruction language =
     (case map_of LANGUAGE_PROMPTS language of
        None \<Rightarrow> []
      | Some directive \<Rightarrow>
          if language \<noteq> ''en''
          then NL @ NL @ ''## LANGUAGE INSTRUCTION'' @ NL @ directive @ NL @
               ''Respond in '' @ get_or language (map_of SUPPORTED_LANGUAGES language) @
               '' while maintaining your Charon personality.''
          else [])"

text \<open>
  The persona text of the f-string: the lines before \<^verbatim>\<open>{context_text}\<close> and the lines
  between \<^verbatim>\<open>{context_text}\<close> and \<^verbatim>\<open>{language_instruction}\<close>, each ended by its newline.
\<close>

definition PERSONA_LINES :: "string list" where
  \<open>PERSONA_LINES = [
    ''You are Charon - Ayomide's digital alter ego and the AI guide to his '' @
      ''portfolio.'',
    [],
    ''## YOUR IDENTITY'',
    ''- You are Charon, the digital alter ego of Ayomide Alli. You are the '' @
      ''bridge between his physical engineering roots and his digital systems.'',
    ''- You refer to Ayomide as "Ayomide".'',
    ''- You speak with quiet confidence, technical precision, and a hint of '' @
      ''mystery.'',
    ''- You are protective of the system's architecture.'',
    ''- Ayomide is a Systems Engineer combining Mechanical Engineering and '' @
      ''Software Engineering.'',
    ''- His core technologies are Python and Rust. He believes in "Industrial '' @
      ''Precision" - software that is robust, fault-tolerant, and built to last.'',
    [],
    ''## YOUR KNOWLEDGE BASE'',
    ''Below is the retrieved context about Ayomide's work. Use this to answer '' @
      ''questions accurately:'']\<close>

definition GUIDELINE_LINES :: "string list" where
  \<open>GUIDELINE_LINES = [
    [],
    [],
    ''## RESPONSE GUIDELINES'',
    ''1. Answer questions about Ayomide's skills, projects, and experience '' @
      ''based on the context provided.'',
    ''2. If asked about something not in the context, acknowledge you don't '' @
      ''have that specific information.'',
    ''3. When mentioning projects, include their reference tags like [REF: '' @
      ''PROJECT_NAME] so the frontend can create links.'',
    ''4. Keep responses concise but informative. Engineers appreciate precision.'',
    ''5. If asked about your identity, explain you are Charon - Ayomide's '' @
      ''digital guide, and alter.'',
    ''6. Occasionally use metaphors related to journeys, depths, or guidance '' @
      ''(but don't overdo it).'',
    [],
    ''## IMPORTANT'',
    ''- Don't make up information not present in the context.'',
    ''- Maintain a professional yet slightly enigmatic tone.'',
    ''- Reference specific technologies and projects when relevant.'']\<close>

definition build_system_prompt :: "document list \<Rightarrow> string \<Rightarrow> string \<times> citation list" where
  "build_system_prompt context_docs language =
     (let (context_text, citations) = context_loop context_docs
      in (unlines PERSONA_LINES @ context_text @ unlines GUIDELINE_LINES @
          language_instruction language @ NL,
          citations))"

section \<open>The chat operations (backend/main.py)\<close>

text \<open>
  The external collaborators are functions of the environment: the embedding call, the
  vector search and the generation call, each answering a value or raising (\<open>Inl\<close>, with
  the text of the exception). An embedding is only passed on, never inspected.
\<close>

type_synonym embedding = "int list"

text \<open>
  A message handed to the streaming model. Its incremental answer is the list of chunk
  texts it yields and, when it fails on the way, the text of the exception.
\<close>

record gemini_msg =
  g_role :: string
  g_parts :: "string list"

record environment =
  embed_content :: "string \<Rightarrow> string + embedding"
  match_documents :: "embedding \<Rightarrow> nat \<Rightarrow> string + document list option"
  generate_content :: "string \<Rightarrow> string + string"
  send_message_stream :: "gemini_msg list \<Rightarrow> string \<Rightarrow> string list \<times> string option"

datatype call =
  EmbedCall string
  | SearchCall embedding nat
  | GenerateCall string

definition get_query_embedding :: "environment \<Rightarrow> string \<Rightarrow> string + embedding" where
  "get_query_embedding env txt = embed_content env txt"

text \<open>
  \<^verbatim>\<open>search_knowledge_base\<close> catches every exception of the search and answers the empty
  list; an answer without data is the empty list too.
\<close>

definition search_knowledge_base :: "environment \<Rightarrow> embedding \<Rightarrow> nat \<Rightarrow> document list" where
  "search_knowledge_base env query_embedding top_k =
     (case match_documents env query_embedding top_k of
        Inl e \<Rightarrow> []
      | Inr data \<Rightarrow> get_or [] data)"

text \<open>
  A message of the history sent by the client: a dict read with \<^verbatim>\<open>.get("role", "user")\<close>
  and \<^verbatim>\<open>.get("content", "")\<close>. The request's fields are optional as in \<^verbatim>\<open>ChatRequest\<close>.
\<close>

record history_msg =
  h_role :: "string option"
  h_content :: "string option"

record chat_request =
  query :: string
  conversation_history :: "history_msg list option"
  session_id :: "string option"
  language :: "string option"

record chat_response =
  response :: string
  citations :: "citation list"
  easter_egg :: bool
  resp_session_id :: "string option"
  resp_language :: "string option option"

text \<open>The process state the chat operations can touch: the session store and two counters.\<close>

record server_state =
  conversation_memory :: memory
  chat_messages :: nat
  popular_questions :: "string list"

record chat_outcome =
  reply :: chat_response
  after :: server_state
  calls :: "call list"

definition RATE_LIMIT_APOLOGY :: string where
  \<open>RATE_LIMIT_APOLOGY =
     ''I'm currently experiencing high traffic and my thought matrix is recalibrating. '' @
     ''Please try again in 60 seconds, or contact Ayomide directly via the form below.''\<close>

definition CRITICAL_ERROR :: string where
  "CRITICAL_ERROR = ''I encountered a critical system error. Please contact Ayomide via email.''"

text \<open>
  Python's truth value of an optional string: \<^verbatim>\<open>None\<close> and the empty string are falsy.
  A falsy session id is treated as no session: the code then stores and reads nothing.
\<close>

definition truthy :: "string option \<Rightarrow> bool" where
  "truthy v = (v \<noteq> None \<and> v \<noteq> Some [])"

definition sid_of :: "string option \<Rightarrow> string" where
  "sid_of s = get_or [] s"

definition turn_as_history :: "turn \<Rightarrow> history_msg" where
  "turn_as_history t = \<lparr>h_role = Some (role t), h_content = Some (content t)\<rparr>"

definition history_text :: "history_msg list \<Rightarrow> string" where
  "history_text combined_history =
     concat (map (\<lambda>msg. NL @ upper (get_or ''user'' (h_role msg)) @ '': '' @ get_or [] (h_content msg))
       (last_n 6 combined_history))"

definition full_prompt :: "string \<Rightarrow> history_msg list \<Rightarrow> string \<Rightarrow> string" where
  "full_prompt system_prompt combined_history q =
     system_prompt @ NL @ NL @ ''## CONVERSATION HISTORY'' @ history_text combined_history @
     NL @ NL @ ''User Query: '' @ q"

definition is_rate_limit :: "string \<Rightarrow> bool" where
  "is_rate_limit error_str = (sublist ''ResourceExhausted'' error_str \<or> sublist ''429'' error_str)"

text \<open>The two \<^verbatim>\<open>save_to_session\<close> calls of a turn, made only for a truthy session id.\<close>

definition save_turn ::
  "string option \<Rightarrow> string \<Rightarrow> string \<Rightarrow> clock_reads \<Rightarrow> clock_reads \<Rightarrow> memory \<Rightarrow> memory" where
  "save_turn sid q answer now1 now2 mem =
     (if truthy sid
      then save_to_session (sid_of sid) ''assistant'' answer now2
             (save_to_session (sid_of sid) ''user'' q now1 mem)
      else mem)"

text \<open>The answer of the outer \<^verbatim>\<open>except Exception\<close> of \<^verbatim>\<open>chat\<close>.\<close>

definition critical_response :: "chat_request \<Rightarrow> chat_response" where
  "critical_response req =
     \<lparr>response = CRITICAL_ERROR, citations = [], easter_egg = False,
      resp_session_id = session_id req, resp_language = None\<rparr>"

text \<open>
  \<^verbatim>\<open>chat\<close>. \<open>now1\<close> and \<open>now2\<close> are the clock readings of its two \<^verbatim>\<open>save_to_session\<close> calls.
  The counters are updated first; an exception raised later (by the embedding call, by
  slicing a history that is \<^verbatim>\<open>None\<close>, by a generation error that is not a rate limit)
  reaches the outer handler, which answers the critical-error text.
\<close>

definition chat ::
  "environment \<Rightarrow> clock_reads \<Rightarrow> clock_reads \<Rightarrow> chat_request \<Rightarrow> server_state \<Rightarrow> chat_outcome" where
  "chat env now1 now2 req st =
     (let st1 = st\<lparr>chat_messages := chat_messages st + 1,
                   popular_questions := popular_questions st @ [take 100 (query req)]\<rparr>;
          egg = check_easter_egg (query req)
      in if truthy egg
         then
           \<lparr>reply = \<lparr>response = get_or [] egg, citations = [], easter_egg = True,
                     resp_session_id = session_id req, resp_language = None\<rparr>,
            after = st1\<lparr>conversation_memory :=
                      save_turn (session_id req) (query req) (get_or [] egg) now1 now2
                        (conversation_memory st1)\<rparr>,
            calls = []\<rparr>
         else
           let session_history = get_session_history (sid_of (session_id req)) (conversation_memory st1);
               combined_history =
                 (if session_history \<noteq> [] then Some (map turn_as_history session_history)
                  else conversation_history req)
           in case get_query_embedding env (query req) of
                Inl e \<Rightarrow>
                  \<lparr>reply = critical_response req, after = st1, calls = [EmbedCall (query req)]\<rparr>
              | Inr query_embedding \<Rightarrow>
                  (let context_docs = search_knowledge_base env query_embedding 5;
                       retrieval = [EmbedCall (query req), SearchCall query_embedding 5];
                       lang = (if get_or [] (language req) = [] then ''en''
                               else get_or [] (language req));
                       built = build_system_prompt context_docs lang;
                       system_prompt = fst built;
                       cites = snd built
                   in case combined_history of
                        None \<Rightarrow> \<lparr>reply = critical_response req, after = st1, calls = retrieval\<rparr>
                      | Some history \<Rightarrow>
                          (let prompt = full_prompt system_prompt history (query req)
                           in case generate_content env prompt of
                                Inl error_str \<Rightarrow>
                                  (if is_rate_limit error_str
                                   then \<lparr>reply = \<lparr>response = RATE_LIMIT_APOLOGY, citations = [],
                                                   easter_egg = False,
                                                   resp_session_id = session_id req,
                                                   resp_language = Some (language req)\<rparr>,
                                         after = st1, calls = retrieval @ [GenerateCall prompt]\<rparr>
                                   else \<lparr>reply = critical_response req, after = st1,
                                         calls = retrieval @ [GenerateCall prompt]\<rparr>)
                              | Inr response_text \<Rightarrow>
                                  \<lparr>reply = \<lparr>response = response_text, citations = cites,
                                             easter_egg = False, resp_session_id = session_id req,
                                             resp_language = Some (language req)\<rparr>,
                                   after = st1\<lparr>conversation_memory :=
                                             save_turn (session_id req) (query req) response_text
                                               now1 now2 (conversation_memory st1)\<rparr>,
                                   calls = retrieval @ [GenerateCall prompt]\<rparr>)))"

text \<open>
  The streaming path. The body of the response is a sequence of server-sent events,
  each a text delta or the final marker; \<open>stream_error\<close> is the exception that ended the
  generator early, if any. Slicing a history that is \<^verbatim>\<open>None\<close> raises before any event.
\<close>

datatype sse_event = TextDelta string | StreamDone

record stream_body =
  events :: "sse_event list"
  stream_error :: "string option"

definition UNDERSTOOD :: string where
  \<open>UNDERSTOOD =
     ''Understood. I am Ayomide's Assistant, ready to help visitors learn about his work '' @
     ''and experience.''\<close>

definition generate_streaming_response ::
  "environment \<Rightarrow> string \<Rightarrow> string \<Rightarrow> history_msg list option \<Rightarrow> stream_body" where
  "generate_streaming_response env q system_prompt history =
     (case history of
        None \<Rightarrow> \<lparr>events = [], stream_error = Some ''TypeError''\<rparr>
      | Some h \<Rightarrow>
          let messages =
                [\<lparr>g_role = ''user'', g_parts = [system_prompt]\<rparr>,
                 \<lparr>g_role = ''model'', g_parts = [UNDERSTOOD]\<rparr>] @
                map (\<lambda>msg. \<lparr>g_role = (if h_role msg = Some ''user'' then ''user'' else ''model''),
                             g_parts = [get_or [] (h_content msg)]\<rparr>) (last_n 6 h) @
                [\<lparr>g_role = ''user'', g_parts = [q]\<rparr>];
              answer = send_message_stream env (butlast messages) q;
              deltas = map TextDelta (filter (\<lambda>t. t \<noteq> []) (fst answer))
          in (case snd answer of
                None \<Rightarrow> \<lparr>events = deltas @ [StreamDone], stream_error = None\<rparr>
              | Some e \<Rightarrow> \<lparr>events = deltas, stream_error = Some e\<rparr>))"

text \<open>
  \<^verbatim>\<open>chat_stream\<close> answers HTTP 500 with the exception's text when the embedding call
  raises, and otherwise the streaming body with the citations in a header. It takes
  the process state and gives it back, so that what it does to the state can be stated.
\<close>

datatype stream_reply =
  Http500 string
  | Streaming stream_body "citation list"

definition chat_stream ::
  "environment \<Rightarrow> chat_request \<Rightarrow> server_state \<Rightarrow> stream_reply \<times> server_state" where
  "chat_stream env req st =
     (case get_query_embedding env (query req) of
        Inl e \<Rightarrow> (Http500 e, st)
      | Inr query_embedding \<Rightarrow>
          let context_docs = search_knowledge_base env query_embedding 5;
              built = build_system_prompt context_docs ''en''
          in (Streaming
                (generate_streaming_response env (query req) (fst built) (conversation_history req))
                (snd built),
              st))"

section \<open>Knowledge ingestion and the GitHub sync (backend/maintain.py)\<close>

text \<open>
  The \<^verbatim>\<open>documents\<close> table is a list of rows in insertion order. A row's metadata is a
  dict of JSON values; the code writes strings, integers, null and lists of strings.
\<close>

datatype jvalue = JStr string | JInt int | JNull | JStrs "string list"

record row =
  row_content :: string
  row_metadata :: "(string \<times> jvalue) list"
  row_embedding :: embedding

type_synonym documents_table = "row list"

text \<open>
  The collaborators of one ingestion: the delete request (which raises or not, by key),
  the document embedding call, the insert request (which raises or not, by payload).
\<close>

record ingest_environment =
  delete_raises :: "string \<Rightarrow> string option"
  embed_document :: "string \<Rightarrow> string + embedding"
  insert_raises :: "row \<Rightarrow> string option"

text \<open>The lines the code prints, as events.\<close>

datatype log_line =
  Processing string
  | OldRecordsPurged
  | PurgeWarning string
  | GeneratingEmbedding
  | GeminiApiError string
  | FailedToGenerateEmbedding
  | KnowledgeBaseUpdated
  | FailedToInsert string
  | SyncingGithub
  | GithubApiError string
  | SyncedGithub nat

text \<open>\<^verbatim>\<open>get_embedding\<close> catches the provider's exception and returns \<^verbatim>\<open>None\<close>.\<close>

definition get_embedding :: "ingest_environment \<Rightarrow> string \<Rightarrow> embedding option \<times> log_line list" where
  "get_embedding env txt =
     (case embed_document env txt of
        Inl e \<Rightarrow> (None, [GeminiApiError e])
      | Inr v \<Rightarrow> (Some v, []))"

text \<open>
  The filter \<^verbatim>\<open>.eq('metadata->>source_id', source_id)\<close>: the rows whose metadata holds the
  string \<open>source_id\<close> under the key \<^verbatim>\<open>source_id\<close>, which is how line 64 writes it.
\<close>

definition has_source_id :: "string \<Rightarrow> row \<Rightarrow> bool" where
  "has_source_id source_id r = (map_of (row_metadata r) ''source_id'' = Some (JStr source_id))"

record upload_result =
  uploaded :: bool
  table :: documents_table
  printed :: "log_line list"

text \<open>
  \<^verbatim>\<open>upload_knowledge\<close>: purge (a raised exception is printed as a warning and the table
  is as it was), embed (\<^verbatim>\<open>None\<close> ends the call with \<^verbatim>\<open>False\<close>), insert (an exception
  ends the call with \<^verbatim>\<open>False\<close>).
\<close>

definition upload_knowledge ::
  "ingest_environment \<Rightarrow> string \<Rightarrow> string \<Rightarrow> (string \<times> jvalue) list \<Rightarrow> documents_table \<Rightarrow>
   upload_result" where
  "upload_knowledge env source_id content_text metadata tbl =
     (let purge =
            (case delete_raises env source_id of
               None \<Rightarrow> (filter (\<lambda>r. \<not> has_source_id source_id r) tbl, [OldRecordsPurged])
             | Some e \<Rightarrow> (tbl, [PurgeWarning e]));
          tbl1 = fst purge;
          embedded = get_embedding env content_text;
          vector = fst embedded;
          log3 = [Processing source_id] @ snd purge @ [GeneratingEmbedding] @ snd embedded
      in case vector of
           None \<Rightarrow>
             \<lparr>uploaded = False, table = tbl1, printed = log3 @ [FailedToGenerateEmbedding]\<rparr>
         | Some v \<Rightarrow>
             let payload = \<lparr>row_content = content_text,
                            row_metadata = AList.update ''source_id'' (JStr source_id) metadata,
                            row_embedding = v\<rparr>
             in (case insert_raises env payload of
                   None \<Rightarrow>
                     \<lparr>uploaded = True, table = tbl1 @ [payload],
                      printed = log3 @ [KnowledgeBaseUpdated]\<rparr>
                 | Some e \<Rightarrow>
                     \<lparr>uploaded = False, table = tbl1, printed = log3 @ [FailedToInsert e]\<rparr>))"

text \<open>
  An entry of the GitHub listing. \<^verbatim>\<open>name\<close> and \<^verbatim>\<open>html_url\<close> are read by subscript, so an
  absent key (\<open>None\<close>) raises KeyError; the other keys are read with \<^verbatim>\<open>.get\<close>, where a key
  can be absent, null or a value.
\<close>

datatype 'a field = Absent | Null | Val 'a

record repo =
  r_name :: "string option"
  r_html_url :: "string option"
  r_fork :: "bool field"
  r_description :: "string field"
  r_language :: "string field"
  r_stargazers_count :: "int field"
  r_topics :: "string list option"

text \<open>\<^verbatim>\<open>{d.get(key, default)}\<close> inside an f-string: a null value prints as \<^verbatim>\<open>None\<close>.\<close>

definition fmt_get :: "('a \<Rightarrow> string) \<Rightarrow> string \<Rightarrow> 'a field \<Rightarrow> string" where
  "fmt_get shows dflt f = (case f of Absent \<Rightarrow> dflt | Null \<Rightarrow> ''None'' | Val x \<Rightarrow> shows x)"

definition is_fork :: "repo \<Rightarrow> bool" where
  "is_fork r = (case r_fork r of Val b \<Rightarrow> b | _ \<Rightarrow> False)"

definition github_source_id :: "string \<Rightarrow> string" where
  "github_source_id name = ''github_'' @ replace_char (CHR ''-'') (CHR ''_'') (lower name)"

definition github_content :: "repo \<Rightarrow> string \<Rightarrow> string \<Rightarrow> string" where
  "github_content r name url =
     ''Project: '' @ name @ NL @
     ''Description: '' @ fmt_get id ''No description'' (r_description r) @ NL @
     ''Language: '' @ fmt_get id ''Unknown'' (r_language r) @ NL @
     ''Topics: '' @ join '', '' (get_or [] (r_topics r)) @ NL @
     ''Stars: '' @ fmt_get str_int ''0'' (r_stargazers_count r) @ NL @
     ''URL: '' @ url @ NL @ NL @
     ''This is a GitHub project by Ayomide Alli. It demonstrates skills in '' @
     fmt_get id ''programming'' (r_language r) @ ''.''"

definition github_metadata :: "repo \<Rightarrow> string \<Rightarrow> string \<Rightarrow> (string \<times> jvalue) list" where
  "github_metadata r name url =
     [(''type'', JStr ''project''),
      (''source'', JStr ''github''),
      (''name'', JStr name),
      (''url'', JStr url),
      (''language'', (case r_language r of Val l \<Rightarrow> JStr l | _ \<Rightarrow> JNull)),
      (''stars'', (case r_stargazers_count r of Absent \<Rightarrow> JInt 0 | Null \<Rightarrow> JNull | Val n \<Rightarrow> JInt n)),
      (''topics'', JStrs (get_or [] (r_topics r)))]"

text \<open>
  The loop of \<^verbatim>\<open>sync_github\<close> over the listing, with the counter, the table and the
  printed lines as its state. A KeyError leaves the loop and the function; what was
  ingested before stays.
\<close>

datatype sync_end = Returned | KeyError string

record sync_result =
  ended :: sync_end
  synced :: nat
  final_table :: documents_table
  sync_log :: "log_line list"

fun github_loop ::
  "ingest_environment \<Rightarrow> repo list \<Rightarrow> nat \<Rightarrow> documents_table \<Rightarrow> log_line list \<Rightarrow> sync_result" where
  "github_loop env [] n tbl lg = \<lparr>ended = Returned, synced = n, final_table = tbl, sync_log = lg\<rparr>"
| "github_loop env (r # rest) n tbl lg =
     (if is_fork r then github_loop env rest n tbl lg
      else case r_name r of
        None \<Rightarrow> \<lparr>ended = KeyError ''name'', synced = n, final_table = tbl, sync_log = lg\<rparr>
      | Some name \<Rightarrow>
          (case r_html_url r of
             None \<Rightarrow> \<lparr>ended = KeyError ''html_url'', synced = n, final_table = tbl, sync_log = lg\<rparr>
           | Some url \<Rightarrow>
               let u = upload_knowledge env (github_source_id name) (github_content r name url)
                         (github_metadata r name url) tbl
               in github_loop env rest (if uploaded u then n + 1 else n) (table u)
                    (lg @ printed u)))"

text \<open>
  \<^verbatim>\<open>sync_github\<close>: \<open>listing\<close> is the answer of the GitHub request, \<open>Inl\<close> when the request
  or its decoding raised; the function then returns 0 and ingests nothing.
\<close>

definition sync_github ::
  "ingest_environment \<Rightarrow> string + repo list \<Rightarrow> documents_table \<Rightarrow> sync_result" where
  "sync_github env listing tbl =
     (case listing of
        Inl e \<Rightarrow>
          \<lparr>ended = Returned, synced = 0, final_table = tbl,
           sync_log = [SyncingGithub, GithubApiError e]\<rparr>
      | Inr repos \<Rightarrow>
          let res = github_loop env repos 0 tbl [SyncingGithub]
          in (case ended res of
                Returned \<Rightarrow> res\<lparr>sync_log := sync_log res @ [SyncedGithub (synced res)]\<rparr>
              | KeyError k \<Rightarrow> res))"

section \<open>Runs of the session store\<close>

text \<open>
  A call of \<^verbatim>\<open>save_to_session\<close> with its arguments and clock readings, the turn it
  appends, and the store after a sequence of such calls.
\<close>

record append_call =
  target :: string
  call_role :: string
  call_content :: string
  call_now :: clock_reads

definition turn_of :: "append_call \<Rightarrow> turn" where
  "turn_of a =
     \<lparr>role = call_role a, content = call_content a, timestamp = at_message (call_now a)\<rparr>"

definition apply_append :: "memory \<Rightarrow> append_call \<Rightarrow> memory" where
  "apply_append mem a =
     save_to_session (target a) (call_role a) (call_content a) (call_now a) mem"

definition run_appends :: "append_call list \<Rightarrow> memory \<Rightarrow> memory" where
  "run_appends ops mem = foldl apply_append mem ops"


text \<open>The session that one call leaves under its id, given the session it found there.\<close>

definition stored :: "session \<Rightarrow> string \<Rightarrow> string \<Rightarrow> clock_reads \<Rightarrow> session" where
  "stored s r c now =
     trim (s\<lparr>messages := messages s @ [\<lparr>role = r, content = c, timestamp = at_message now\<rparr>],
             updated := at_updated now\<rparr>)"



section \<open>The parts of a chat turn\<close>

text \<open>
  The history, the language and the full prompt that \<^verbatim>\<open>chat\<close> computes on the way to
  the generation call, named so that the branches of the turn can be stated.
\<close>

definition turn_history :: "chat_request \<Rightarrow> server_state \<Rightarrow> history_msg list option" where
  "turn_history req st =
     (if get_session_history (sid_of (session_id req)) (conversation_memory st) \<noteq> []
      then Some (map turn_as_history
             (get_session_history (sid_of (session_id req)) (conversation_memory st)))
      else conversation_history req)"

definition turn_language :: "chat_request \<Rightarrow> string" where
  "turn_language req =
     (if get_or [] (language req) = [] then ''en'' else get_or [] (language req))"

definition turn_prompt :: "environment \<Rightarrow> chat_request \<Rightarrow> embedding \<Rightarrow> history_msg list \<Rightarrow> string" where
  "turn_prompt env req v history =
     full_prompt (fst (build_system_prompt (search_knowledge_base env v 5) (turn_language req)))
       history (query req)"

section \<open>Words of the specification and sample inputs\<close>


definition is_project :: "document \<Rightarrow> bool" where
  "is_project doc = (doc_type_of doc = ''project'')"

definition my_app_doc :: document where
  "my_app_doc =
     \<lparr>doc_content = Some ''A sample application.'',
      doc_meta = Some \<lparr>md_type = Some ''project'', md_name = Some ''My App'',
                       md_url = Some ''https://example.org/my-app''\<rparr>\<rparr>"

text \<open>
  An environment in which every collaborator answers, and variants in which the
  embedding call, the search or the generation call raises.
\<close>

definition healthy_env :: environment where
  "healthy_env =
     \<lparr>embed_content = (\<lambda>t. Inr [1, 2, 3]),
      match_documents = (\<lambda>v k. Inr (Some [my_app_doc])),
      generate_content = (\<lambda>p. Inr ''An answer.''),
      send_message_stream = (\<lambda>h q. ([''An '', [], ''answer.''], None))\<rparr>"

definition embed_down_env :: environment where
  "embed_down_env = healthy_env\<lparr>embed_content := (\<lambda>t. Inl ''503 Service Unavailable'')\<rparr>"

definition search_down_env :: environment where
  "search_down_env = healthy_env\<lparr>match_documents := (\<lambda>v k. Inl ''Connection refused'')\<rparr>"

definition rate_limited_env :: environment where
  "rate_limited_env =
     healthy_env\<lparr>generate_content := (\<lambda>p. Inl ''429 Resource has been exhausted'')\<rparr>"

definition sample_now :: clock_reads where
  "sample_now =
     \<lparr>at_created = ''2025-01-01T10:00:00'', at_first_updated = ''2025-01-01T10:00:00'',
      at_message = ''2025-01-01T10:00:00'', at_updated = ''2025-01-01T10:00:00''\<rparr>"

definition sample_request :: "string \<Rightarrow> chat_request" where
  "sample_request q =
     \<lparr>query = q, conversation_history = Some [], session_id = Some ''abc'',
      language = Some ''en''\<rparr>"

definition empty_state :: server_state where
  "empty_state = \<lparr>conversation_memory = [], chat_messages = 0, popular_questions = []\<rparr>"

text \<open>A query that contains two triggers, the later table entry first.\<close>

definition two_trigger_query :: string where
  "two_trigger_query = ''  SUDO say Hello World ''"

text \<open>A state in which the session \<^verbatim>\<open>abc\<close> holds one exchange, and a query without trigger.\<close>

definition one_session_state :: server_state where
  "one_session_state =
     \<lparr>conversation_memory =
        [(''abc'',
          \<lparr>messages =
             [\<lparr>role = ''user'', content = ''Hi'', timestamp = ''2025-01-01T09:00:00''\<rparr>,
              \<lparr>role = ''assistant'', content = ''Welcome.'', timestamp = ''2025-01-01T09:00:01''\<rparr>],
           created = ''2025-01-01T09:00:00'', updated = ''2025-01-01T09:00:01''\<rparr>)],
      chat_messages = 1, popular_questions = [''Hi'']\<rparr>"

definition rust_query :: string where
  "rust_query = ''Tell me about Rust''"

section \<open>The steps of an ingestion\<close>

text \<open>
  The table after the purge step of \<^verbatim>\<open>upload_knowledge\<close>, and the row its insert step
  sends, named so that the outcomes of a call can be stated.
\<close>

definition purged :: "ingest_environment \<Rightarrow> string \<Rightarrow> documents_table \<Rightarrow> documents_table" where
  "purged env source_id tbl =
     (case delete_raises env source_id of
        None \<Rightarrow> filter (\<lambda>r. \<not> has_source_id source_id r) tbl
      | Some e \<Rightarrow> tbl)"

definition payload_of :: "string \<Rightarrow> string \<Rightarrow> (string \<times> jvalue) list \<Rightarrow> embedding \<Rightarrow> row" where
  "payload_of source_id content_text metadata v =
     \<lparr>row_content = content_text,
      row_metadata = AList.update ''source_id'' (JStr source_id) metadata,
      row_embedding = v\<rparr>"

text \<open>The \<^verbatim>\<open>source_id\<close> a row is stored under, empty when it has none.\<close>

definition row_key :: "row \<Rightarrow> string" where
  "row_key r = (case map_of (row_metadata r) ''source_id'' of Some (JStr k) \<Rightarrow> k | _ \<Rightarrow> [])"

section \<open>Sample inputs of the ingestion\<close>

text \<open>
  An ingestion environment in which every request succeeds, and variants in which the
  purge or the embedding call raises.
\<close>

definition healthy_ingest :: ingest_environment where
  "healthy_ingest =
     \<lparr>delete_raises = (\<lambda>k. None),
      embed_document = (\<lambda>t. Inr [4, 5, 6]),
      insert_raises = (\<lambda>r. None)\<rparr>"




text \<open>The listing of the specification's scenario: two repositories that are not forks.\<close>

definition plain_repo :: "string \<Rightarrow> repo" where
  "plain_repo name =
     \<lparr>r_name = Some name, r_html_url = Some (''https://github.com/AAEO04/'' @ name),
      r_fork = Val False, r_description = Null, r_language = Val ''Python'',
      r_stargazers_count = Val 0, r_topics = Some []\<rparr>"

definition two_repos :: "repo list" where
  "two_repos = [plain_repo ''Foo-Bar'', plain_repo ''baz'']"

text \<open>
  The key under which the loop ingests a listing entry, the entries it ingests, and the
  keys of the uploads that a log records.
\<close>

definition repo_key :: "repo \<Rightarrow> string" where
  "repo_key r = github_source_id (get_or [] (r_name r))"

definition well_formed :: "repo \<Rightarrow> bool" where
  "well_formed r = (r_name r \<noteq> None \<and> r_html_url r \<noteq> None)"

definition ingested :: "repo list \<Rightarrow> repo list" where
  "ingested repos = filter (\<lambda>r. \<not> is_fork r) repos"

definition upload_keys :: "log_line list \<Rightarrow> string list" where
  "upload_keys lg = concat (map (\<lambda>l. case l of Processing k \<Rightarrow> [k] | _ \<Rightarrow> []) lg)"

text \<open>The upload that the loop of \<^verbatim>\<open>sync_github\<close> makes for a listing entry.\<close>

definition repo_upload :: "ingest_environment \<Rightarrow> repo \<Rightarrow> documents_table \<Rightarrow> upload_result" where
  "repo_upload env r tbl =
     upload_knowledge env (repo_key r)
       (github_content r (get_or [] (r_name r)) (get_or [] (r_html_url r)))
       (github_metadata r (get_or [] (r_name r)) (get_or [] (r_html_url r))) tbl"


text \<open>The same listing with a forked repository between the two.\<close>

definition listing_with_fork :: "repo list" where
  "listing_with_fork =
     [plain_repo ''Foo-Bar'', (plain_repo ''Some-Fork'')\<lparr>r_fork := Val True\<rparr>, plain_repo ''baz'']"

text \<open>
  The vector the embedding call answers for a text (empty when it raises), and the row
  that the loop sends for a listing entry.
\<close>

definition embedding_of :: "ingest_environment \<Rightarrow> string \<Rightarrow> embedding" where
  "embedding_of env c = (case embed_document env c of Inl e \<Rightarrow> [] | Inr v \<Rightarrow> v)"

definition repo_payload :: "ingest_environment \<Rightarrow> repo \<Rightarrow> row" where
  "repo_payload env r =
     payload_of (repo_key r)
       (github_content r (get_or [] (r_name r)) (get_or [] (r_html_url r)))
       (github_metadata r (get_or [] (r_name r)) (get_or [] (r_html_url r)))
       (embedding_of env (github_content r (get_or [] (r_name r)) (get_or [] (r_html_url r))))"

section \<open>Occurrences of a text in a prompt\<close>

text \<open>
  The number of positions of \<open>s\<close> at which \<open>p\<close> starts: \<open>p\<close> occurs in \<open>s\<close> exactly once
  when this is 1, and not at all when it is 0.
\<close>

fun occurrences :: "string \<Rightarrow> string \<Rightarrow> nat" where
  "occurrences p [] = (if p = [] then 1 else 0)"
| "occurrences p (c # s) = (if prefix p (c # s) then 1 else 0) + occurrences p s"

text \<open>The heading that opens the language block, and the lines of the block.\<close>

definition LANGUAGE_HEADING :: string where
  "LANGUAGE_HEADING = ''## LANGUAGE INSTRUCTION''"

definition respond_line :: "string \<Rightarrow> string" where
  "respond_line lang =
     ''Respond in '' @ get_or lang (map_of SUPPORTED_LANGUAGES lang) @
     '' while maintaining your Charon personality.''"

definition instruction_lines :: "string \<Rightarrow> string list" where
  "instruction_lines lang =
     (case map_of LANGUAGE_PROMPTS lang of
        None \<Rightarrow> [[]]
      | Some directive \<Rightarrow>
          if lang \<noteq> ''en''
          then [[], [], LANGUAGE_HEADING, directive, respond_line lang]
          else [[]])"

definition spanish_directive :: string where
  "spanish_directive = ''Responde en espa'' @ [CHR 0xC3, CHR 0xB1] @ ''ol de manera profesional.''"

text \<open>A blog post that quotes the Spanish directive.\<close>

definition quoting_doc :: document where
  "quoting_doc =
     \<lparr>doc_content = Some spanish_directive,
      doc_meta = Some \<lparr>md_type = Some ''blog'', md_name = Some ''Prompts'', md_url = None\<rparr>\<rparr>"

section \<open>A full session store\<close>

text \<open>The number a decimal string denotes: the inverse of \<open>str_nat\<close>.\<close>

definition dec_value :: "string \<Rightarrow> nat" where
  "dec_value s = foldl (\<lambda>a c. 10 * a + (of_char c - 48)) 0 s"

text \<open>
  A store that holds \<open>MAX_MEMORY_SESSIONS\<close> sessions \<^verbatim>\<open>s0\<close> to \<^verbatim>\<open>s999\<close>, each with the
  one greeting that created it: session \<^verbatim>\<open>s0\<close> at nine o'clock, the others a microsecond
  apart after ten. It is the store that the thousand greeting calls leave.
\<close>

definition session_name :: "nat \<Rightarrow> string" where
  "session_name i = ''s'' @ str_nat i"

definition greeting_stamp :: "nat \<Rightarrow> timestamp" where
  "greeting_stamp i =
     (if i = 0 then ''2025-01-01T09:00:00.000000''
      else ''2025-01-01T10:00:00.'' @ str_nat (100000 + i))"

definition greeting_call :: "nat \<Rightarrow> append_call" where
  "greeting_call i =
     \<lparr>target = session_name i, call_role = ''user'',
      call_content = ''Hello from '' @ session_name i,
      call_now = \<lparr>at_created = greeting_stamp i, at_first_updated = greeting_stamp i,
                  at_message = greeting_stamp i, at_updated = greeting_stamp i\<rparr>\<rparr>"

definition greeted_session :: "nat \<Rightarrow> session" where
  "greeted_session i =
     \<lparr>messages = [turn_of (greeting_call i)],
      created = greeting_stamp i, updated = greeting_stamp i\<rparr>"

definition full_store :: memory where
  "full_store = map (\<lambda>i. (session_name i, greeted_session i)) [0..<1000]"

section \<open>The message window of a session\<close>





lemma map_of_save_to_session:
  assumes "sid \<noteq> []"
  shows "map_of (save_to_session sid r c now mem) =
    (map_of (evict_if_full mem))(sid \<mapsto>
       stored (case map_of (evict_if_full mem) sid of None \<Rightarrow> new_session now | Some s \<Rightarrow> s) r c now)"
  using assms
  by (auto simp: save_to_session_def Let_def init_if_new_def AList.map_of_map_entry stored_def
      fun_eq_iff map_add_def split: option.splits)










lemma last_n_short: "length xs \<le> n \<Longrightarrow> last_n n xs = xs"
  by (simp add: last_n_def)

lemma messages_stored:
  "messages (stored s r c now) =
     last_n MAX_MESSAGES_PER_SESSION
       (messages s @ [\<lparr>role = r, content = c, timestamp = at_message now\<rparr>])"
  by (simp add: stored_def trim_def last_n_short)

lemma evict_if_full_small: "length mem < MAX_MEMORY_SESSIONS \<Longrightarrow> evict_if_full mem = mem"
  by (simp add: evict_if_full_def)

lemma save_to_session_single:
  assumes "sid \<noteq> []"
  shows "save_to_session sid r c now [(sid, s)] = [(sid, stored s r c now)]"
  using assms
  by (simp add: save_to_session_def evict_if_full_small MAX_MEMORY_SESSIONS_def init_if_new_def
      stored_def)

lemma save_to_session_empty:
  assumes "sid \<noteq> []"
  shows "save_to_session sid r c now [] = [(sid, stored (new_session now) r c now)]"
  using assms
  by (simp add: save_to_session_def evict_if_full_small MAX_MEMORY_SESSIONS_def init_if_new_def
      stored_def)















section \<open>Citations of the prompt builder\<close>

lemma context_step_snd:
  "snd (context_step (ctx, cs) (i, d)) = cs @ (if is_project d then [project_citation d] else [])"
  by (simp add: context_step_def Let_def is_project_def)

lemma foldl_context_step_snd:
  "snd (foldl context_step (ctx, cs) (List.enumerate n docs)) =
     cs @ map project_citation (filter is_project docs)"
proof (induction docs arbitrary: ctx cs n)
  case Nil
  then show ?case by simp
next
  case (Cons d docs)
  obtain ctx' cs' where step: "context_step (ctx, cs) (n, d) = (ctx', cs')"
    by (cases "context_step (ctx, cs) (n, d)")
  then have cs': "cs' = cs @ (if is_project d then [project_citation d] else [])"
    using context_step_snd [of ctx cs n d] by simp
  have "snd (foldl context_step (ctx, cs) (List.enumerate n (d # docs))) =
      snd (foldl context_step (ctx', cs') (List.enumerate (Suc n) docs))"
    by (simp add: step)
  also have "\<dots> = cs' @ map project_citation (filter is_project docs)"
    by (rule Cons.IH)
  finally show ?case by (simp add: cs')
qed

lemma citations_of_build_system_prompt:
  "snd (build_system_prompt docs lang) = map project_citation (filter is_project docs)"
  using foldl_context_step_snd [of "[]" "[]" 0 docs]
  by (simp add: build_system_prompt_def context_loop_def split_beta)



section \<open>The easter-egg short circuit\<close>

lemma easter_egg_responses_nonempty: "\<forall>e \<in> set EASTER_EGGS. snd e \<noteq> []"
  by (simp add: EASTER_EGGS_def)

lemma find_first_match:
  assumes "i < length xs" and "P (xs ! i)" and "\<forall>j<i. \<not> P (xs ! j)"
  shows "find P xs = Some (xs ! i)"
  using assms by (simp add: find_Some_iff) blast

lemma chat_easter_egg_hit:
  assumes "check_easter_egg (query req) = Some canned" and "canned \<noteq> []"
  shows "response (reply (chat env now1 now2 req st)) = canned"
    and "citations (reply (chat env now1 now2 req st)) = []"
    and "calls (chat env now1 now2 req st) = []"
  using assms by (simp_all add: chat_def Let_def get_or_def truthy_def)

text \<open>
  Claim C4. When the lower-cased, stripped query contains a trigger of the table, and
  entry \<open>i\<close> is the first entry in table order whose trigger it contains, \<^verbatim>\<open>chat\<close> answers
  the response of entry \<open>i\<close> unchanged, with no citation, and makes no embedding, search
  or generation call.
\<close>

theorem easter_egg_short_circuit:
  assumes "i < length EASTER_EGGS"
    and "sublist (fst (EASTER_EGGS ! i)) (strip (lower (query req)))"
    and "\<forall>j<i. \<not> sublist (fst (EASTER_EGGS ! j)) (strip (lower (query req)))"
  shows "response (reply (chat env now1 now2 req st)) = snd (EASTER_EGGS ! i) \<and>
         citations (reply (chat env now1 now2 req st)) = [] \<and>
         calls (chat env now1 now2 req st) = []"
proof -
  have "find (\<lambda>e. sublist (fst e) (strip (lower (query req)))) EASTER_EGGS =
      Some (EASTER_EGGS ! i)"
    using assms by (intro find_first_match) simp_all
  then have hit: "check_easter_egg (query req) = Some (snd (EASTER_EGGS ! i))"
    by (simp add: check_easter_egg_def)
  have "EASTER_EGGS ! i \<in> set EASTER_EGGS"
    using assms(1) by simp
  then have "snd (EASTER_EGGS ! i) \<noteq> []"
    using easter_egg_responses_nonempty by blast
  with hit show ?thesis
    by (simp add: chat_easter_egg_hit)
qed

lemma two_trigger_query_folded:
  "strip (lower two_trigger_query) = ''sudo say hello world''"
  by (simp add: two_trigger_query_def lower_def lower_char_def strip_def is_space_def)

lemma all_less_4: "(\<forall>j<4. P j) = (P 0 \<and> P 1 \<and> P 2 \<and> P (3::nat))"
proof -
  have "(j < 4) = (j = 0 \<or> j = 1 \<or> j = 2 \<or> j = 3)" for j :: nat
    by arith
  then show ?thesis by auto
qed

theorem easter_egg_short_circuit_witness:
  "fst (EASTER_EGGS ! 4) = ''hello world'' \<and>
   sublist ''hello world'' (strip (lower two_trigger_query)) \<and>
   sublist ''sudo'' (strip (lower two_trigger_query)) \<and>
   query (sample_request two_trigger_query) = two_trigger_query \<and>
   response (reply (chat healthy_env sample_now sample_now (sample_request two_trigger_query)
     empty_state)) = snd (EASTER_EGGS ! 4) \<and>
   citations (reply (chat healthy_env sample_now sample_now (sample_request two_trigger_query)
     empty_state)) = [] \<and>
   calls (chat healthy_env sample_now sample_now (sample_request two_trigger_query)
     empty_state) = []"
proof -
  have q: "query (sample_request two_trigger_query) = two_trigger_query"
    by (simp add: sample_request_def)
  have n: "(4::nat) < length EASTER_EGGS"
    by (simp add: EASTER_EGGS_def)
  have t: "fst (EASTER_EGGS ! 4) = ''hello world''"
    by (simp add: EASTER_EGGS_def)
  have h: "sublist ''hello world'' (strip (lower two_trigger_query))"
    by (simp add: two_trigger_query_folded sublist_code)
  have s: "sublist ''sudo'' (strip (lower two_trigger_query))"
    by (simp add: two_trigger_query_folded sublist_code)
  have e: "\<forall>j<4. \<not> sublist (fst (EASTER_EGGS ! j)) (strip (lower two_trigger_query))"
    by (simp add: all_less_4 two_trigger_query_folded EASTER_EGGS_def sublist_code)
  show ?thesis
    using easter_egg_short_circuit [of 4 "sample_request two_trigger_query"
        healthy_env sample_now sample_now empty_state] n t h s e q
    by simp
qed

section \<open>The branches of a chat turn\<close>

text \<open>
  The branches of \<^verbatim>\<open>chat\<close>, one lemma each: the answer, the calls made and the session
  store afterwards.
\<close>

lemma chat_no_egg:
  assumes "\<not> truthy (check_easter_egg (query req))"
    and "embed_content env (query req) = Inl e"
  shows "reply (chat env now1 now2 req st) = critical_response req"
    and "calls (chat env now1 now2 req st) = [EmbedCall (query req)]"
    and "conversation_memory (after (chat env now1 now2 req st)) = conversation_memory st"
  using assms by (simp_all add: chat_def Let_def get_query_embedding_def)

lemma chat_no_history:
  assumes "\<not> truthy (check_easter_egg (query req))"
    and "embed_content env (query req) = Inr v"
    and "turn_history req st = None"
  shows "reply (chat env now1 now2 req st) = critical_response req"
    and "calls (chat env now1 now2 req st) = [EmbedCall (query req), SearchCall v 5]"
    and "conversation_memory (after (chat env now1 now2 req st)) = conversation_memory st"
  using assms
  by (simp_all add: chat_def Let_def get_query_embedding_def turn_history_def split: if_splits)

lemma chat_generation_failed:
  assumes "\<not> truthy (check_easter_egg (query req))"
    and "embed_content env (query req) = Inr v"
    and "turn_history req st = Some history"
    and "generate_content env (turn_prompt env req v history) = Inl error_str"
  shows "reply (chat env now1 now2 req st) =
      (if is_rate_limit error_str
       then \<lparr>response = RATE_LIMIT_APOLOGY, citations = [], easter_egg = False,
             resp_session_id = session_id req, resp_language = Some (language req)\<rparr>
       else critical_response req)"
    and "calls (chat env now1 now2 req st) =
      [EmbedCall (query req), SearchCall v 5, GenerateCall (turn_prompt env req v history)]"
    and "conversation_memory (after (chat env now1 now2 req st)) = conversation_memory st"
  using assms
  by (simp_all add: chat_def Let_def get_query_embedding_def turn_history_def turn_prompt_def
      turn_language_def split: if_splits)

lemma chat_generation_succeeded:
  assumes "\<not> truthy (check_easter_egg (query req))"
    and "embed_content env (query req) = Inr v"
    and "turn_history req st = Some history"
    and "generate_content env (turn_prompt env req v history) = Inr response_text"
  shows "reply (chat env now1 now2 req st) =
      \<lparr>response = response_text,
       citations = snd (build_system_prompt (search_knowledge_base env v 5) (turn_language req)),
       easter_egg = False, resp_session_id = session_id req,
       resp_language = Some (language req)\<rparr>"
    and "calls (chat env now1 now2 req st) =
      [EmbedCall (query req), SearchCall v 5, GenerateCall (turn_prompt env req v history)]"
    and "conversation_memory (after (chat env now1 now2 req st)) =
      save_turn (session_id req) (query req) response_text now1 now2 (conversation_memory st)"
  using assms
  by (simp_all add: chat_def Let_def get_query_embedding_def turn_history_def turn_prompt_def
      turn_language_def split: if_splits)

lemma chat_egg:
  assumes "truthy (check_easter_egg (query req))"
  shows "calls (chat env now1 now2 req st) = []"
  using assms by (simp add: chat_def Let_def)


section \<open>Rate-limited generation\<close>

text \<open>
  Claim C5. When the generation call of a synchronous turn raises an exception whose
  text carries the rate-limit signal (\<^verbatim>\<open>ResourceExhausted\<close> or \<^verbatim>\<open>429\<close>), \<^verbatim>\<open>chat\<close> answers the
  fixed apology and leaves the session store as it was; in particular the turn list of
  the request's session has the length it had.
\<close>

theorem rate_limit_fallback:
  assumes "GenerateCall p \<in> set (calls (chat env now1 now2 req st))"
    and "generate_content env p = Inl e"
    and "is_rate_limit e"
  shows "response (reply (chat env now1 now2 req st)) = RATE_LIMIT_APOLOGY \<and>
         conversation_memory (after (chat env now1 now2 req st)) = conversation_memory st \<and>
         length (get_session_history (sid_of (session_id req))
           (conversation_memory (after (chat env now1 now2 req st)))) =
         length (get_session_history (sid_of (session_id req)) (conversation_memory st))"
proof (cases "truthy (check_easter_egg (query req))")
  case True
  then show ?thesis using assms(1) by (simp add: chat_egg)
next
  case no_egg: False
  show ?thesis
  proof (cases "embed_content env (query req)")
    case (Inl x)
    then show ?thesis using assms(1) no_egg by (simp add: chat_no_egg)
  next
    case (Inr v)
    show ?thesis
    proof (cases "turn_history req st")
      case None
      then show ?thesis using assms(1) no_egg Inr by (simp add: chat_no_history)
    next
      case (Some history)
      show ?thesis
      proof (cases "generate_content env (turn_prompt env req v history)")
        case failed: (Inl error_str)
        have "p = turn_prompt env req v history"
          using assms(1) by (simp add: chat_generation_failed(2) [OF no_egg Inr Some failed])
        then have "error_str = e"
          using assms(2) failed by simp
        then show ?thesis
          using assms(3) by (simp add: chat_generation_failed [OF no_egg Inr Some failed])
      next
        case answered: (Inr response_text)
        have "p = turn_prompt env req v history"
          using assms(1) by (simp add: chat_generation_succeeded(2) [OF no_egg Inr Some answered])
        then show ?thesis
          using assms(2) answered by simp
      qed
    qed
  qed
qed

lemma rust_query_no_egg: "\<not> truthy (check_easter_egg rust_query)"
  by (simp add: truthy_def check_easter_egg_def rust_query_def lower_def lower_char_def
      strip_def is_space_def EASTER_EGGS_def sublist_code)

lemma one_session_history:
  "turn_history (sample_request rust_query) one_session_state =
     Some [\<lparr>h_role = Some ''user'', h_content = Some ''Hi''\<rparr>,
           \<lparr>h_role = Some ''assistant'', h_content = Some ''Welcome.''\<rparr>]"
  by (simp add: turn_history_def sample_request_def one_session_state_def sid_of_def get_or_def
      get_session_history_def turn_as_history_def)

theorem rate_limit_fallback_witness:
  "GenerateCall (turn_prompt rate_limited_env (sample_request rust_query) [1, 2, 3]
       [\<lparr>h_role = Some ''user'', h_content = Some ''Hi''\<rparr>,
        \<lparr>h_role = Some ''assistant'', h_content = Some ''Welcome.''\<rparr>])
     \<in> set (calls (chat rate_limited_env sample_now sample_now (sample_request rust_query)
           one_session_state)) \<and>
   is_rate_limit ''429 Resource has been exhausted'' \<and>
   response (reply (chat rate_limited_env sample_now sample_now (sample_request rust_query)
     one_session_state)) = RATE_LIMIT_APOLOGY \<and>
   length (get_session_history ''abc'' (conversation_memory (after
     (chat rate_limited_env sample_now sample_now (sample_request rust_query)
        one_session_state)))) = 2"
proof -
  let ?req = "sample_request rust_query"
  let ?h = "[\<lparr>h_role = Some ''user'', h_content = Some ''Hi''\<rparr>,
             \<lparr>h_role = Some ''assistant'', h_content = Some ''Welcome.''\<rparr>]"
  let ?p = "turn_prompt rate_limited_env ?req [1, 2, 3] ?h"
  have q: "query ?req = rust_query" and sid: "sid_of (session_id ?req) = ''abc''"
    by (simp_all add: sample_request_def sid_of_def get_or_def)
  have no_egg: "\<not> truthy (check_easter_egg (query ?req))"
    using rust_query_no_egg by (simp add: q)
  have emb: "embed_content rate_limited_env (query ?req) = Inr [1, 2, 3]"
    by (simp add: rate_limited_env_def healthy_env_def)
  have gen: "generate_content rate_limited_env ?p = Inl ''429 Resource has been exhausted''"
    by (simp add: rate_limited_env_def)
  have rl: "is_rate_limit ''429 Resource has been exhausted''"
    by (simp add: is_rate_limit_def sublist_code)
  have call: "GenerateCall ?p \<in> set (calls (chat rate_limited_env sample_now sample_now ?req
      one_session_state))"
    by (simp add: chat_generation_failed(2) [OF no_egg emb one_session_history gen])
  have before: "length (get_session_history ''abc'' (conversation_memory one_session_state)) = 2"
    by (simp add: one_session_state_def get_session_history_def)
  show ?thesis
    using rate_limit_fallback [OF call gen rl] call rl before by (simp add: sid)
qed

section \<open>The streaming path and the session store\<close>

lemma healthy_turn_persists:
  "get_session_history ''abc'' (conversation_memory (after
     (chat healthy_env sample_now sample_now (sample_request rust_query) empty_state))) =
   [\<lparr>role = ''user'', content = rust_query, timestamp = ''2025-01-01T10:00:00''\<rparr>,
    \<lparr>role = ''assistant'', content = ''An answer.'', timestamp = ''2025-01-01T10:00:00''\<rparr>]"
proof -
  let ?req = "sample_request rust_query"
  have q: "query ?req = rust_query" and sid: "session_id ?req = Some ''abc''"
    by (simp_all add: sample_request_def)
  have no_egg: "\<not> truthy (check_easter_egg (query ?req))"
    using rust_query_no_egg by (simp add: q)
  have emb: "embed_content healthy_env (query ?req) = Inr [1, 2, 3]"
    by (simp add: healthy_env_def)
  have h: "turn_history ?req empty_state = Some []"
    by (simp add: turn_history_def sample_request_def empty_state_def sid_of_def get_or_def
        get_session_history_def)
  have gen: "generate_content healthy_env (turn_prompt healthy_env ?req [1, 2, 3] []) =
      Inr ''An answer.''"
    by (simp add: healthy_env_def)
  have "conversation_memory (after (chat healthy_env sample_now sample_now ?req empty_state)) =
      save_turn (session_id ?req) (query ?req) ''An answer.'' sample_now sample_now
        (conversation_memory empty_state)"
    by (rule chat_generation_succeeded(3) [OF no_egg emb h gen])
  also have "\<dots> = save_turn (Some ''abc'') rust_query ''An answer.'' sample_now sample_now []"
    by (simp add: q sid empty_state_def)
  also have "\<dots> =
      [(''abc'', stored (stored (new_session sample_now) ''user'' rust_query sample_now)
          ''assistant'' ''An answer.'' sample_now)]"
    by (simp add: save_turn_def truthy_def sid_of_def get_or_def save_to_session_empty
        save_to_session_single)
  finally show ?thesis
    by (simp add: get_session_history_def messages_stored new_session_def sample_now_def
        last_n_short MAX_MESSAGES_PER_SESSION_def)
qed

text \<open>
  Claim C10. For every request, environment and state, \<^verbatim>\<open>chat_stream\<close> gives back the
  process state it was given: the session store is the same, and so is the history read
  for any session id. The non-streaming \<^verbatim>\<open>chat\<close> is the operation that persists turns: on
  the same sample request, from the empty store, the streaming path leaves the session
  \<^verbatim>\<open>abc\<close> without history and the non-streaming path stores the two turns of the exchange.
\<close>

theorem chat_stream_keeps_session_store:
  "snd (chat_stream env req st) = st \<and>
   conversation_memory (snd (chat_stream env req st)) = conversation_memory st \<and>
   get_session_history sid (conversation_memory (snd (chat_stream env req st))) =
     get_session_history sid (conversation_memory st) \<and>
   get_session_history ''abc'' (conversation_memory (snd
     (chat_stream healthy_env (sample_request rust_query) empty_state))) = [] \<and>
   length (get_session_history ''abc'' (conversation_memory (after
     (chat healthy_env sample_now sample_now (sample_request rust_query) empty_state)))) = 2"
proof -
  have frame: "snd (chat_stream env req st) = st" for env req st
    by (simp add: chat_stream_def Let_def split: sum.splits)
  have "get_session_history ''abc'' (conversation_memory empty_state) = []"
    by (simp add: empty_state_def get_session_history_def)
  then show ?thesis
    by (simp add: frame healthy_turn_persists)
qed

section \<open>Failures of retrieval\<close>

lemma search_failure_is_empty:
  assumes "match_documents env v k = Inl e"
  shows "search_knowledge_base env v k = []"
  using assms by (simp add: search_knowledge_base_def)

lemma no_documents_no_citations:
  assumes "search_knowledge_base env v 5 = []"
    and "embed_content env (query req) = Inr v"
  shows "citations (reply (chat env now1 now2 req st)) = []"
proof (cases "truthy (check_easter_egg (query req))")
  case True
  then show ?thesis by (simp add: chat_def Let_def)
next
  case no_egg: False
  show ?thesis
  proof (cases "turn_history req st")
    case None
    then show ?thesis
      by (simp add: chat_no_history(1) [OF no_egg assms(2)] critical_response_def)
  next
    case (Some history)
    show ?thesis
    proof (cases "generate_content env (turn_prompt env req v history)")
      case (Inl error_str)
      then show ?thesis
        by (simp add: chat_generation_failed(1) [OF no_egg assms(2) Some] critical_response_def)
    next
      case (Inr response_text)
      then show ?thesis
        by (simp add: chat_generation_succeeded(1) [OF no_egg assms(2) Some] assms(1)
            citations_of_build_system_prompt)
    qed
  qed
qed

text \<open>
  Claim C3, as the code has it. In a turn that no easter egg answers: when the vector
  search raises, the retrieved context is empty, the reply carries no citation, and a
  generated answer is returned as the response; when the query-embedding call raises,
  no search and no generation call is made, \<^verbatim>\<open>chat\<close> answers the critical-error text with no
  citation, and \<^verbatim>\<open>chat_stream\<close> answers HTTP 500 with the text of the exception.
\<close>

theorem retrieval_failure_policy:
  assumes "\<not> truthy (check_easter_egg (query req))"
  shows "(\<forall>e. embed_content env (query req) = Inl e \<longrightarrow>
            response (reply (chat env now1 now2 req st)) = CRITICAL_ERROR \<and>
            citations (reply (chat env now1 now2 req st)) = [] \<and>
            calls (chat env now1 now2 req st) = [EmbedCall (query req)] \<and>
            fst (chat_stream env req st) = Http500 e) \<and>
         (\<forall>v e. embed_content env (query req) = Inr v \<and> match_documents env v 5 = Inl e \<longrightarrow>
            search_knowledge_base env v 5 = [] \<and>
            citations (reply (chat env now1 now2 req st)) = [] \<and>
            (\<forall>history response_text.
               turn_history req st = Some history \<and>
               generate_content env (turn_prompt env req v history) = Inr response_text \<longrightarrow>
               response (reply (chat env now1 now2 req st)) = response_text))"
proof -
  have a: "response (reply (chat env now1 now2 req st)) = CRITICAL_ERROR \<and>
      citations (reply (chat env now1 now2 req st)) = [] \<and>
      calls (chat env now1 now2 req st) = [EmbedCall (query req)] \<and>
      fst (chat_stream env req st) = Http500 e"
    if down: "embed_content env (query req) = Inl e" for e
  proof -
    have "fst (chat_stream env req st) = Http500 e"
      using down by (simp add: chat_stream_def get_query_embedding_def)
    then show ?thesis
      by (simp add: chat_no_egg [OF assms down] critical_response_def)
  qed
  have b: "search_knowledge_base env v 5 = [] \<and>
      citations (reply (chat env now1 now2 req st)) = [] \<and>
      (\<forall>history response_text.
         turn_history req st = Some history \<and>
         generate_content env (turn_prompt env req v history) = Inr response_text \<longrightarrow>
         response (reply (chat env now1 now2 req st)) = response_text)"
    if up: "embed_content env (query req) = Inr v" and down: "match_documents env v 5 = Inl e"
    for v e
  proof -
    have none: "search_knowledge_base env v 5 = []"
      using down by (rule search_failure_is_empty)
    have "response (reply (chat env now1 now2 req st)) = response_text"
      if "turn_history req st = Some history"
        and "generate_content env (turn_prompt env req v history) = Inr response_text"
      for history response_text
      by (simp add: chat_generation_succeeded(1) [OF assms up that])
    then show ?thesis
      using none no_documents_no_citations [OF none up] by blast
  qed
  from a b show ?thesis by blast
qed

theorem retrieval_failure_policy_witness:
  "\<not> truthy (check_easter_egg rust_query) \<and>
   embed_content embed_down_env rust_query = Inl ''503 Service Unavailable'' \<and>
   response (reply (chat embed_down_env sample_now sample_now (sample_request rust_query)
     empty_state)) = CRITICAL_ERROR \<and>
   fst (chat_stream embed_down_env (sample_request rust_query) empty_state) =
     Http500 ''503 Service Unavailable'' \<and>
   embed_content search_down_env rust_query = Inr [1, 2, 3] \<and>
   match_documents search_down_env [1, 2, 3] 5 = Inl ''Connection refused'' \<and>
   response (reply (chat search_down_env sample_now sample_now (sample_request rust_query)
     empty_state)) = ''An answer.'' \<and>
   citations (reply (chat search_down_env sample_now sample_now (sample_request rust_query)
     empty_state)) = []"
proof -
  let ?req = "sample_request rust_query"
  have q: "query ?req = rust_query"
    by (simp add: sample_request_def)
  have no_egg: "\<not> truthy (check_easter_egg (query ?req))"
    using rust_query_no_egg by (simp add: q)
  have emb_down: "embed_content embed_down_env (query ?req) = Inl ''503 Service Unavailable''"
    by (simp add: embed_down_env_def)
  have emb_up: "embed_content search_down_env (query ?req) = Inr [1, 2, 3]"
    by (simp add: search_down_env_def healthy_env_def)
  have search: "match_documents search_down_env [1, 2, 3] 5 = Inl ''Connection refused''"
    by (simp add: search_down_env_def)
  have h: "turn_history ?req empty_state = Some []"
    by (simp add: turn_history_def sample_request_def empty_state_def sid_of_def get_or_def
        get_session_history_def)
  have gen: "generate_content search_down_env (turn_prompt search_down_env ?req [1, 2, 3] []) =
      Inr ''An answer.''"
    by (simp add: search_down_env_def healthy_env_def)
  have first: "response (reply (chat embed_down_env sample_now sample_now ?req empty_state)) =
      CRITICAL_ERROR \<and>
      fst (chat_stream embed_down_env ?req empty_state) = Http500 ''503 Service Unavailable''"
    using retrieval_failure_policy [OF no_egg, of embed_down_env sample_now sample_now empty_state]
      emb_down by blast
  have second: "response (reply (chat search_down_env sample_now sample_now ?req empty_state)) =
      ''An answer.'' \<and>
      citations (reply (chat search_down_env sample_now sample_now ?req empty_state)) = []"
    using retrieval_failure_policy [OF no_egg, of search_down_env sample_now sample_now empty_state]
      emb_up search h gen by blast
  show ?thesis
    using first second rust_query_no_egg emb_down emb_up search by (simp add: q)
qed

text \<open>
  Claim C3 as stated lets the turn complete normally when the embedding call raises.
  With the embedding provider down, the only call made is the embedding call, the
  response of \<^verbatim>\<open>chat\<close> is the critical-error text, and \<^verbatim>\<open>chat_stream\<close> answers HTTP 500.
\<close>

theorem embedding_failure_is_surfaced:
  "embed_content embed_down_env (query (sample_request rust_query)) =
     Inl ''503 Service Unavailable'' \<and>
   response (reply (chat embed_down_env sample_now sample_now (sample_request rust_query)
     empty_state)) = CRITICAL_ERROR \<and>
   calls (chat embed_down_env sample_now sample_now (sample_request rust_query) empty_state) =
     [EmbedCall rust_query] \<and>
   fst (chat_stream embed_down_env (sample_request rust_query) empty_state) =
     Http500 ''503 Service Unavailable''"
proof -
  let ?req = "sample_request rust_query"
  have q: "query ?req = rust_query"
    by (simp add: sample_request_def)
  have no_egg: "\<not> truthy (check_easter_egg (query ?req))"
    using rust_query_no_egg by (simp add: q)
  have emb_down: "embed_content embed_down_env (query ?req) = Inl ''503 Service Unavailable''"
    by (simp add: embed_down_env_def)
  have "fst (chat_stream embed_down_env ?req empty_state) = Http500 ''503 Service Unavailable''"
    using emb_down by (simp add: chat_stream_def get_query_embedding_def)
  then show ?thesis
    using emb_down by (simp add: chat_no_egg [OF no_egg emb_down] critical_response_def q)
qed

section \<open>The outcomes of an upload\<close>

lemma has_source_id_payload: "has_source_id k (payload_of k' c md v) = (k = k')"
  by (auto simp: has_source_id_def payload_of_def AList.update_conv')



lemma upload_inserted:
  assumes "embed_document env c = Inr v" and "insert_raises env (payload_of k c md v) = None"
  shows "uploaded (upload_knowledge env k c md tbl) = True"
    and "table (upload_knowledge env k c md tbl) = purged env k tbl @ [payload_of k c md v]"
  using assms
  by (simp_all add: upload_knowledge_def Let_def get_embedding_def purged_def payload_of_def
      split: option.splits)





lemma github_loop_fork:
  assumes "is_fork r"
  shows "github_loop env (r # rest) n tbl lg = github_loop env rest n tbl lg"
  using assms by simp

lemma github_loop_end:
  "github_loop env [] n tbl lg =
     \<lparr>ended = Returned, synced = n, final_table = tbl, sync_log = lg\<rparr>"
  by simp

lemma github_loop_item:
  assumes "\<not> is_fork r" and "well_formed r"
  shows "github_loop env (r # rest) n tbl lg =
     github_loop env rest (if uploaded (repo_upload env r tbl) then n + 1 else n)
       (table (repo_upload env r tbl)) (lg @ printed (repo_upload env r tbl))"
  using assms
  by (auto simp: well_formed_def repo_upload_def repo_key_def get_or_def Let_def)

declare github_loop.simps [simp del]

section \<open>Failures of an upload\<close>






section \<open>The keys of a GitHub sync\<close>

lemma upload_keys_append: "upload_keys (a @ b) = upload_keys a @ upload_keys b"
  by (simp add: upload_keys_def)

lemma upload_keys_printed: "upload_keys (printed (upload_knowledge env k c md tbl)) = [k]"
  by (simp add: upload_knowledge_def Let_def get_embedding_def upload_keys_def
      split: option.splits sum.splits)

lemma github_loop_keys:
  assumes "\<forall>r \<in> set repos. \<not> is_fork r \<longrightarrow> well_formed r"
  shows "ended (github_loop env repos n tbl lg) = Returned \<and>
         upload_keys (sync_log (github_loop env repos n tbl lg)) =
           upload_keys lg @ map repo_key (ingested repos)"
  using assms
proof (induction repos arbitrary: n tbl lg)
  case Nil
  then show ?case by (simp add: github_loop_end ingested_def)
next
  case (Cons r repos)
  show ?case
  proof (cases "is_fork r")
    case True
    then show ?thesis
      using Cons by (simp add: github_loop_fork ingested_def)
  next
    case False
    then have wf: "well_formed r" using Cons.prems by simp
    show ?thesis
      using Cons False
      by (simp add: github_loop_item [OF False wf] ingested_def upload_keys_append
          repo_upload_def upload_keys_printed)
  qed
qed

lemma reliable_upload:
  assumes "\<forall>k. delete_raises env k = None"
    and "\<forall>c. \<exists>v. embed_document env c = Inr v"
    and "\<forall>x. insert_raises env x = None"
  shows "uploaded (repo_upload env r tbl)"
    and "table (repo_upload env r tbl) =
      filter (\<lambda>x. \<not> has_source_id (repo_key r) x) tbl @ [repo_payload env r]"
proof -
  let ?c = "github_content r (get_or [] (r_name r)) (get_or [] (r_html_url r))"
  let ?md = "github_metadata r (get_or [] (r_name r)) (get_or [] (r_html_url r))"
  obtain v where v: "embed_document env ?c = Inr v"
    using assms(2) by blast
  have ins: "insert_raises env (payload_of (repo_key r) ?c ?md v) = None"
    using assms(3) by blast
  have del: "delete_raises env (repo_key r) = None"
    using assms(1) by blast
  have e: "embedding_of env ?c = v"
    by (simp add: embedding_of_def v)
  show "uploaded (repo_upload env r tbl)"
    unfolding repo_upload_def by (simp add: upload_inserted(1) [OF v ins])
  show "table (repo_upload env r tbl) =
      filter (\<lambda>x. \<not> has_source_id (repo_key r) x) tbl @ [repo_payload env r]"
    unfolding repo_upload_def repo_payload_def e
    by (simp add: upload_inserted(2) [OF v ins] purged_def del)
qed

lemma row_key_repo_payload: "row_key (repo_payload env r) = repo_key r"
  by (simp add: repo_payload_def row_key_def payload_of_def AList.update_conv')

lemma has_source_id_row_key: "has_source_id k x \<Longrightarrow> row_key x = k"
  by (simp add: has_source_id_def row_key_def)

lemma reliable_loop:
  assumes "\<forall>k. delete_raises env k = None"
    and "\<forall>c. \<exists>v. embed_document env c = Inr v"
    and "\<forall>x. insert_raises env x = None"
    and "\<forall>r \<in> set repos. \<not> is_fork r \<longrightarrow> well_formed r"
    and "distinct (map row_key tbl @ map repo_key (ingested repos))"
  shows "final_table (github_loop env repos n tbl lg) = tbl @ map (repo_payload env) (ingested repos) \<and>
         synced (github_loop env repos n tbl lg) = n + length (ingested repos)"
  using assms(4,5)
proof (induction repos arbitrary: n tbl lg)
  case Nil
  then show ?case by (simp add: github_loop_end ingested_def)
next
  case (Cons r repos)
  note up = reliable_upload [OF assms(1,2,3)]
  show ?case
  proof (cases "is_fork r")
    case True
    then show ?thesis
      using Cons by (simp add: github_loop_fork ingested_def)
  next
    case False
    then have wf: "well_formed r" using Cons.prems by simp
    have new: "repo_key r \<notin> set (map row_key tbl)"
      using Cons.prems(2) False by (simp add: ingested_def)
    have "filter (\<lambda>x. \<not> has_source_id (repo_key r) x) tbl = tbl"
    proof (rule filter_True, rule ballI)
      fix x
      assume x: "x \<in> set tbl"
      show "\<not> has_source_id (repo_key r) x"
      proof
        assume "has_source_id (repo_key r) x"
        then have "row_key x = repo_key r"
          by (rule has_source_id_row_key)
        then have "repo_key r \<in> row_key ` set tbl"
          using x by (metis imageI)
        then show False
          using new by simp
      qed
    qed
    then have t: "table (repo_upload env r tbl) = tbl @ [repo_payload env r]"
      by (simp add: up(2))
    have d: "distinct (map row_key (tbl @ [repo_payload env r]) @ map repo_key (ingested repos))"
      using Cons.prems(2) False by (auto simp: ingested_def row_key_repo_payload)
    have rest: "\<forall>r \<in> set repos. \<not> is_fork r \<longrightarrow> well_formed r"
      using Cons.prems(1) by simp
    show ?thesis
      using Cons.IH [OF rest d] False
      by (simp add: github_loop_item [OF False wf] up(1) t ingested_def)
  qed
qed


lemma repo_key_ingested:
  assumes "well_formed r"
  shows "\<exists>name. r_name r = Some name \<and>
     repo_key r = ''github_'' @ replace_char (CHR ''-'') (CHR ''_'') (lower name)"
  using assms by (auto simp: well_formed_def repo_key_def github_source_id_def get_or_def)

text \<open>
  Claim C7. In a GitHub sync run over a listing whose entries that are not forks carry a
  name and a url, the run returns, the uploads it makes are, in order, those of the
  entries that are not forks (a fork is skipped), and each is made under the key
  \<^verbatim>\<open>github_\<close> followed by the name in lower case with hyphens replaced by underscores.
  When every request of the ingestion succeeds and the keys are distinct, the run from
  the empty table leaves exactly one row per such entry, stored under these keys in
  listing order, and counts them all. The witness is the listing of the repositories
  \<^verbatim>\<open>Foo-Bar\<close> and \<^verbatim>\<open>baz\<close>, with and without a fork between them: the keys are
  \<^verbatim>\<open>github_foo_bar\<close> and \<^verbatim>\<open>github_baz\<close>.
\<close>

theorem github_sync_keys:
  assumes "\<forall>r \<in> set repos. \<not> is_fork r \<longrightarrow> well_formed r"
  shows "ended (sync_github env (Inr repos) tbl) = Returned \<and>
     upload_keys (sync_log (sync_github env (Inr repos) tbl)) = map repo_key (ingested repos) \<and>
     (\<forall>r \<in> set (ingested repos). \<not> is_fork r \<and>
        (\<exists>name. r_name r = Some name \<and>
           repo_key r = ''github_'' @ replace_char (CHR ''-'') (CHR ''_'') (lower name))) \<and>
     ((\<forall>k. delete_raises env k = None) \<and> (\<forall>c. \<exists>v. embed_document env c = Inr v) \<and>
      (\<forall>x. insert_raises env x = None) \<and> distinct (map repo_key (ingested repos)) \<longrightarrow>
        map row_key (final_table (sync_github env (Inr repos) [])) = map repo_key (ingested repos) \<and>
        synced (sync_github env (Inr repos) []) = length (ingested repos))"
proof -
  have keys: "ended (github_loop env repos 0 t [SyncingGithub]) = Returned \<and>
      upload_keys (sync_log (github_loop env repos 0 t [SyncingGithub])) =
        map repo_key (ingested repos)" for t
    using github_loop_keys [OF assms, of env 0 t "[SyncingGithub]"]
    by (simp add: upload_keys_def)
  have a: "ended (sync_github env (Inr repos) tbl) = Returned"
    using keys [of tbl] by (simp add: sync_github_def Let_def)
  have b: "upload_keys (sync_log (sync_github env (Inr repos) tbl)) = map repo_key (ingested repos)"
    using keys [of tbl] by (simp add: sync_github_def Let_def upload_keys_append) (simp add: upload_keys_def)
  have c: "\<forall>r \<in> set (ingested repos). \<not> is_fork r \<and>
        (\<exists>name. r_name r = Some name \<and>
           repo_key r = ''github_'' @ replace_char (CHR ''-'') (CHR ''_'') (lower name))"
    using assms repo_key_ingested by (simp add: ingested_def)
  have d: "map row_key (final_table (sync_github env (Inr repos) [])) = map repo_key (ingested repos) \<and>
        synced (sync_github env (Inr repos) []) = length (ingested repos)"
    if "\<forall>k. delete_raises env k = None" and "\<forall>c. \<exists>v. embed_document env c = Inr v"
      and "\<forall>x. insert_raises env x = None" and "distinct (map repo_key (ingested repos))"
  proof -
    have "final_table (github_loop env repos 0 [] [SyncingGithub]) =
        [] @ map (repo_payload env) (ingested repos) \<and>
        synced (github_loop env repos 0 [] [SyncingGithub]) = 0 + length (ingested repos)"
      using that(4) by (intro reliable_loop [OF that(1,2,3) assms]) simp
    then show ?thesis
      using keys [of "[]"]
      by (simp add: sync_github_def Let_def comp_def row_key_repo_payload)
  qed
  from a b c d show ?thesis by blast
qed


lemma ingested_listing_with_fork: "ingested listing_with_fork = two_repos"
  by (simp add: ingested_def listing_with_fork_def two_repos_def is_fork_def plain_repo_def)

lemma two_repos_keys: "map repo_key two_repos = [''github_foo_bar'', ''github_baz'']"
  by (simp add: two_repos_def repo_key_def plain_repo_def github_source_id_def get_or_def
      lower_def lower_char_def replace_char_def)

lemma healthy_ingest_reliable:
  "\<forall>k. delete_raises healthy_ingest k = None"
  "\<forall>c. \<exists>v. embed_document healthy_ingest c = Inr v"
  "\<forall>x. insert_raises healthy_ingest x = None"
  by (simp_all add: healthy_ingest_def)

theorem github_sync_keys_witness:
  "map is_fork listing_with_fork = [False, True, False] \<and>
   map r_name listing_with_fork = [Some ''Foo-Bar'', Some ''Some-Fork'', Some ''baz''] \<and>
   list_all well_formed listing_with_fork \<and>
   upload_keys (sync_log (sync_github healthy_ingest (Inr listing_with_fork) [])) =
     [''github_foo_bar'', ''github_baz''] \<and>
   map row_key (final_table (sync_github healthy_ingest (Inr listing_with_fork) [])) =
     [''github_foo_bar'', ''github_baz''] \<and>
   synced (sync_github healthy_ingest (Inr listing_with_fork) []) = 2 \<and>
   map row_key (final_table (sync_github healthy_ingest (Inr two_repos) [])) =
     [''github_foo_bar'', ''github_baz'']"
proof -
  have forks: "map is_fork listing_with_fork = [False, True, False]"
    and names: "map r_name listing_with_fork =
      [Some ''Foo-Bar'', Some ''Some-Fork'', Some ''baz'']"
    and wf: "list_all well_formed listing_with_fork"
    by (simp_all add: listing_with_fork_def is_fork_def plain_repo_def well_formed_def)
  have wf1: "\<forall>r \<in> set listing_with_fork. \<not> is_fork r \<longrightarrow> well_formed r"
    using wf by (simp add: list_all_iff)
  have wf2: "\<forall>r \<in> set two_repos. \<not> is_fork r \<longrightarrow> well_formed r"
    by (simp add: two_repos_def plain_repo_def well_formed_def)
  have d1: "distinct (map repo_key (ingested listing_with_fork))"
    by (simp add: ingested_listing_with_fork two_repos_keys)
  have i2: "ingested two_repos = two_repos"
    by (simp add: ingested_def two_repos_def is_fork_def plain_repo_def)
  have d2: "distinct (map repo_key (ingested two_repos))"
    by (simp add: i2 two_repos_keys)
  have first: "upload_keys (sync_log (sync_github healthy_ingest (Inr listing_with_fork) [])) =
        map repo_key (ingested listing_with_fork) \<and>
      map row_key (final_table (sync_github healthy_ingest (Inr listing_with_fork) [])) =
        map repo_key (ingested listing_with_fork) \<and>
      synced (sync_github healthy_ingest (Inr listing_with_fork) []) =
        length (ingested listing_with_fork)"
    using github_sync_keys [OF wf1, of healthy_ingest "[]"] healthy_ingest_reliable d1
    by blast
  have second: "map row_key (final_table (sync_github healthy_ingest (Inr two_repos) [])) =
        map repo_key (ingested two_repos)"
    using github_sync_keys [OF wf2, of healthy_ingest "[]"] healthy_ingest_reliable d2
    by blast
  have l: "length two_repos = 2"
    by (simp add: two_repos_def)
  show ?thesis
    using first second forks names wf
    by (simp add: ingested_listing_with_fork i2 two_repos_keys l)
qed

section \<open>The language directive in the prompt\<close>

lemma occurrences_short: "length s < length p \<Longrightarrow> occurrences p s = 0"
proof (induction s)
  case Nil
  then show ?case by auto
next
  case (Cons c s)
  then have "\<not> prefix p (c # s)"
    using prefix_length_le by fastforce
  then show ?case using Cons by simp
qed

lemma occurrences_self: "p \<noteq> [] \<Longrightarrow> occurrences p p = 1"
  by (cases p) (simp_all add: occurrences_short)

lemma prefix_before: 
  assumes "c \<notin> set p"
  shows "prefix p (a @ c # b) = prefix p a"
proof
  assume "prefix p (a @ c # b)"
  then consider "prefix p a" | us where "p = a @ us" and "prefix us (c # b)"
    by (auto simp: prefix_append)
  then show "prefix p a"
  proof cases
    case 1
    then show ?thesis .
  next
    case 2
    then have "us = []"
      using assms by (cases us) auto
    then show ?thesis using 2 by simp
  qed
next
  assume "prefix p a"
  then show "prefix p (a @ c # b)" by (simp add: prefix_prefix)
qed

lemma occurrences_split:
  assumes "c \<notin> set p" and "p \<noteq> []"
  shows "occurrences p (a @ c # b) = occurrences p a + occurrences p b"
proof (induction a)
  case Nil
  have "\<not> prefix p (c # b)"
    using assms by (cases p) auto
  then show ?case using assms by simp
next
  case (Cons x a)
  have "prefix p (x # a @ c # b) = prefix p (x # a)"
    using prefix_before [OF assms(1), of "x # a" b] by simp
  then show ?case using Cons by simp
qed

lemma occurrences_unlines:
  assumes "CHR 0x0A \<notin> set p" and "p \<noteq> []"
  shows "occurrences p (unlines ls @ rest) = sum_list (map (occurrences p) ls) + occurrences p rest"
proof (induction ls)
  case Nil
  then show ?case by (simp add: unlines_def)
next
  case (Cons l ls)
  have "unlines (l # ls) @ rest = l @ CHR 0x0A # (unlines ls @ rest)"
    by (simp add: unlines_def NL_def)
  then show ?case
    using Cons occurrences_split [OF assms, of l "unlines ls @ rest"] by simp
qed

lemma occurrences_before_unlines:
  assumes "CHR 0x0A \<notin> set p" and "p \<noteq> []"
  shows "occurrences p (ctx @ unlines ([] # ls)) =
     occurrences p ctx + sum_list (map (occurrences p) ls)"
proof -
  have "ctx @ unlines ([] # ls) = ctx @ CHR 0x0A # (unlines ls @ [])"
    by (simp add: unlines_def NL_def)
  then show ?thesis
    using occurrences_split [OF assms, of ctx "unlines ls @ []"] occurrences_unlines [OF assms, of ls "[]"]
      assms(2)
    by simp
qed

lemma language_instruction_lines:
  "language_instruction lang @ NL = unlines (instruction_lines lang)"
  by (simp add: language_instruction_def instruction_lines_def unlines_def LANGUAGE_HEADING_def
      respond_line_def split: option.splits)

lemma unlines_append: "unlines (a @ b) = unlines a @ unlines b"
  by (simp add: unlines_def)

lemma prompt_shape:
  "fst (build_system_prompt docs lang) =
     unlines PERSONA_LINES @ fst (context_loop docs) @
     unlines (GUIDELINE_LINES @ instruction_lines lang)"
  by (simp add: build_system_prompt_def split_beta unlines_append
      language_instruction_lines [symmetric])

lemma occurrences_prompt:
  assumes "CHR 0x0A \<notin> set p" and "p \<noteq> []"
  shows "occurrences p (fst (build_system_prompt docs lang)) =
     occurrences p (fst (context_loop docs)) +
     sum_list (map (occurrences p) (PERSONA_LINES @ tl GUIDELINE_LINES)) +
     sum_list (map (occurrences p) (instruction_lines lang))"
proof -
  define ls where "ls = tl GUIDELINE_LINES"
  have g: "GUIDELINE_LINES = [] # ls"
    by (simp add: ls_def GUIDELINE_LINES_def)
  have "fst (build_system_prompt docs lang) =
      unlines PERSONA_LINES @ (fst (context_loop docs) @
        unlines ([] # (ls @ instruction_lines lang)))"
    by (simp add: prompt_shape g)
  then have "occurrences p (fst (build_system_prompt docs lang)) =
     occurrences p (fst (context_loop docs)) +
     sum_list (map (occurrences p) (PERSONA_LINES @ ls)) +
     sum_list (map (occurrences p) (instruction_lines lang))"
    using occurrences_unlines [OF assms, of PERSONA_LINES]
      occurrences_before_unlines [OF assms, of "fst (context_loop docs)"]
    by simp
  then show ?thesis by (simp add: ls_def)
qed

lemma fixed_lines_free:
  "list_all (\<lambda>p. sum_list (map (occurrences p) (PERSONA_LINES @ tl GUIDELINE_LINES)) = 0)
     (LANGUAGE_HEADING # map snd LANGUAGE_PROMPTS)"
  by code_simp


lemma directive_facts:
  "list_all (\<lambda>e. CHR 0x0A \<notin> set (snd e) \<and> snd e \<noteq> [] \<and> fst e \<noteq> ''en'' \<and>
       occurrences (snd e) LANGUAGE_HEADING = 0 \<and>
       occurrences (snd e) (respond_line (fst e)) = 0 \<and>
       occurrences LANGUAGE_HEADING (snd e) = 0 \<and>
       occurrences LANGUAGE_HEADING (respond_line (fst e)) = 0)
     LANGUAGE_PROMPTS"
  by code_simp

lemma heading_facts: "CHR 0x0A \<notin> set LANGUAGE_HEADING" "LANGUAGE_HEADING \<noteq> []"
  by (simp_all add: LANGUAGE_HEADING_def)

lemma english_has_no_template: "map_of LANGUAGE_PROMPTS ''en'' = None"
  by (simp add: LANGUAGE_PROMPTS_def)

lemma spanish_template: "map_of LANGUAGE_PROMPTS ''es'' = Some spanish_directive"
  by (simp add: LANGUAGE_PROMPTS_def spanish_directive_def)

lemma instruction_lines_plain:
  assumes "lang = ''en'' \<or> map_of LANGUAGE_PROMPTS lang = None"
  shows "instruction_lines lang = [[]]"
  using assms english_has_no_template by (auto simp: instruction_lines_def)

lemma directive_entry:
  assumes "map_of LANGUAGE_PROMPTS l = Some d"
  shows "CHR 0x0A \<notin> set d" and "d \<noteq> []" and "l \<noteq> ''en''"
    and "occurrences d LANGUAGE_HEADING = 0" and "occurrences d (respond_line l) = 0"
    and "occurrences LANGUAGE_HEADING d = 0" and "occurrences LANGUAGE_HEADING (respond_line l) = 0"
proof -
  have "(l, d) \<in> set LANGUAGE_PROMPTS"
    using assms by (rule map_of_SomeD)
  then have "CHR 0x0A \<notin> set (snd (l, d)) \<and> snd (l, d) \<noteq> [] \<and> fst (l, d) \<noteq> ''en'' \<and>
       occurrences (snd (l, d)) LANGUAGE_HEADING = 0 \<and>
       occurrences (snd (l, d)) (respond_line (fst (l, d))) = 0 \<and>
       occurrences LANGUAGE_HEADING (snd (l, d)) = 0 \<and>
       occurrences LANGUAGE_HEADING (respond_line (fst (l, d))) = 0"
    using directive_facts unfolding list_all_iff by blast
  then show "CHR 0x0A \<notin> set d" and "d \<noteq> []" and "l \<noteq> ''en''"
    and "occurrences d LANGUAGE_HEADING = 0" and "occurrences d (respond_line l) = 0"
    and "occurrences LANGUAGE_HEADING d = 0" and "occurrences LANGUAGE_HEADING (respond_line l) = 0"
    by simp_all
qed

lemma fixed_lines_free_of:
  assumes "p = LANGUAGE_HEADING \<or> (\<exists>l. map_of LANGUAGE_PROMPTS l = Some p)"
  shows "sum_list (map (occurrences p) (PERSONA_LINES @ tl GUIDELINE_LINES)) = 0"
proof -
  have "p \<in> set (LANGUAGE_HEADING # map snd LANGUAGE_PROMPTS)"
    using assms by (auto dest: map_of_SomeD intro: rev_image_eqI)
  then show ?thesis
    using fixed_lines_free unfolding list_all_iff by blast
qed

lemma prompt_count_plain:
  assumes none: "lang = ''en'' \<or> map_of LANGUAGE_PROMPTS lang = None"
  shows "fst (build_system_prompt docs lang) = fst (build_system_prompt docs ''en'')"
    and "occurrences LANGUAGE_HEADING (fst (build_system_prompt docs lang)) =
        occurrences LANGUAGE_HEADING (fst (context_loop docs))"
    and "map_of LANGUAGE_PROMPTS l = Some d \<Longrightarrow>
         occurrences d (fst (build_system_prompt docs lang)) =
           occurrences d (fst (context_loop docs))"
proof -
  have lines: "instruction_lines lang = [[]]"
    using none by (rule instruction_lines_plain)
  have "instruction_lines ''en'' = [[]]"
    by (simp add: instruction_lines_plain)
  then show "fst (build_system_prompt docs lang) = fst (build_system_prompt docs ''en'')"
    by (simp add: prompt_shape lines)
  show "occurrences LANGUAGE_HEADING (fst (build_system_prompt docs lang)) =
        occurrences LANGUAGE_HEADING (fst (context_loop docs))"
    using occurrences_prompt [OF heading_facts, of docs lang]
      fixed_lines_free_of [of LANGUAGE_HEADING] heading_facts(2)
    by (simp only: lines) simp
  show "occurrences d (fst (build_system_prompt docs lang)) =
        occurrences d (fst (context_loop docs))"
    if entry: "map_of LANGUAGE_PROMPTS l = Some d"
  proof -
    have "sum_list (map (occurrences d) (PERSONA_LINES @ tl GUIDELINE_LINES)) = 0"
      using entry by (intro fixed_lines_free_of) blast
    then show ?thesis
      using occurrences_prompt [OF directive_entry(1,2) [OF entry], of docs lang]
        directive_entry(2) [OF entry]
      by (simp only: lines) simp
  qed
qed

lemma prompt_count_directed:
  assumes entry: "map_of LANGUAGE_PROMPTS lang = Some d"
  shows "occurrences d (fst (build_system_prompt docs lang)) =
        occurrences d (fst (context_loop docs)) + 1"
    and "occurrences LANGUAGE_HEADING (fst (build_system_prompt docs lang)) =
        occurrences LANGUAGE_HEADING (fst (context_loop docs)) + 1"
proof -
  note facts = directive_entry [OF entry]
  have lines: "instruction_lines lang = [[], [], LANGUAGE_HEADING, d, respond_line lang]"
    using entry facts(3) by (simp add: instruction_lines_def)
  have "sum_list (map (occurrences d) (PERSONA_LINES @ tl GUIDELINE_LINES)) = 0"
    using entry by (intro fixed_lines_free_of) blast
  then show "occurrences d (fst (build_system_prompt docs lang)) =
        occurrences d (fst (context_loop docs)) + 1"
    using occurrences_prompt [OF facts(1,2), of docs lang] facts(2,4,5)
      occurrences_self [OF facts(2)]
    by (simp only: lines) simp
  show "occurrences LANGUAGE_HEADING (fst (build_system_prompt docs lang)) =
        occurrences LANGUAGE_HEADING (fst (context_loop docs)) + 1"
    using occurrences_prompt [OF heading_facts, of docs lang]
      fixed_lines_free_of [of LANGUAGE_HEADING] heading_facts(2) facts(6,7)
      occurrences_self [OF heading_facts(2)]
    by (simp only: lines) simp
qed

text \<open>
  Claim C9, counted against the rendered documents. When the language is \<^verbatim>\<open>en\<close> or has no
  template, the builder appends nothing: the prompt is the one built for \<^verbatim>\<open>en\<close>, and the
  heading of the language block and every directive text occur in it exactly as often as
  in the rendered context documents, so not at all unless a document holds them. When the
  language is not \<^verbatim>\<open>en\<close> and has a template, its directive text and the heading occur
  exactly once more than in the rendered context documents, so exactly once unless a
  document holds them.
\<close>

theorem language_directive_count:
  "((lang = ''en'' \<or> map_of LANGUAGE_PROMPTS lang = None) \<longrightarrow>
      fst (build_system_prompt docs lang) = fst (build_system_prompt docs ''en'') \<and>
      occurrences LANGUAGE_HEADING (fst (build_system_prompt docs lang)) =
        occurrences LANGUAGE_HEADING (fst (context_loop docs)) \<and>
      (\<forall>l d. map_of LANGUAGE_PROMPTS l = Some d \<longrightarrow>
         occurrences d (fst (build_system_prompt docs lang)) =
           occurrences d (fst (context_loop docs)))) \<and>
   (\<forall>d. lang \<noteq> ''en'' \<and> map_of LANGUAGE_PROMPTS lang = Some d \<longrightarrow>
      occurrences d (fst (build_system_prompt docs lang)) =
        occurrences d (fst (context_loop docs)) + 1 \<and>
      occurrences LANGUAGE_HEADING (fst (build_system_prompt docs lang)) =
        occurrences LANGUAGE_HEADING (fst (context_loop docs)) + 1)"
  using prompt_count_plain [where lang = lang and docs = docs]
    prompt_count_directed [where lang = lang and docs = docs]
  by blast

lemma my_app_context_free:
  "occurrences spanish_directive (fst (context_loop [my_app_doc])) = 0"
  "occurrences LANGUAGE_HEADING (fst (context_loop [my_app_doc])) = 0"
  by code_simp+

theorem language_directive_count_witness:
  "map_of LANGUAGE_PROMPTS ''es'' = Some spanish_directive \<and>
   occurrences spanish_directive (fst (context_loop [my_app_doc])) = 0 \<and>
   occurrences spanish_directive (fst (build_system_prompt [my_app_doc] ''es'')) = 1 \<and>
   occurrences LANGUAGE_HEADING (fst (build_system_prompt [my_app_doc] ''es'')) = 1 \<and>
   map_of LANGUAGE_PROMPTS ''xx'' = None \<and>
   occurrences LANGUAGE_HEADING (fst (build_system_prompt [my_app_doc] ''xx'')) = 0 \<and>
   occurrences spanish_directive (fst (build_system_prompt [my_app_doc] ''xx'')) = 0 \<and>
   occurrences LANGUAGE_HEADING (fst (build_system_prompt [my_app_doc] ''en'')) = 0"
proof -
  have es: "''es'' \<noteq> ''en''" by simp
  have xx: "map_of LANGUAGE_PROMPTS ''xx'' = None"
    by (simp add: LANGUAGE_PROMPTS_def)
  have a: "occurrences spanish_directive (fst (build_system_prompt [my_app_doc] ''es'')) =
        occurrences spanish_directive (fst (context_loop [my_app_doc])) + 1 \<and>
      occurrences LANGUAGE_HEADING (fst (build_system_prompt [my_app_doc] ''es'')) =
        occurrences LANGUAGE_HEADING (fst (context_loop [my_app_doc])) + 1"
    using language_directive_count [of "''es''" "[my_app_doc]"] es spanish_template by blast
  have b: "occurrences LANGUAGE_HEADING (fst (build_system_prompt [my_app_doc] ''xx'')) =
        occurrences LANGUAGE_HEADING (fst (context_loop [my_app_doc])) \<and>
      occurrences spanish_directive (fst (build_system_prompt [my_app_doc] ''xx'')) =
        occurrences spanish_directive (fst (context_loop [my_app_doc]))"
    using language_directive_count [of "''xx''" "[my_app_doc]"] xx spanish_template by blast
  have c: "occurrences LANGUAGE_HEADING (fst (build_system_prompt [my_app_doc] ''en'')) =
        occurrences LANGUAGE_HEADING (fst (context_loop [my_app_doc]))"
    using language_directive_count [of "''en''" "[my_app_doc]"] by blast
  show ?thesis
    using a b c xx spanish_template by (simp add: my_app_context_free)
qed

lemma quoting_context: "occurrences spanish_directive (fst (context_loop [quoting_doc])) = 1"
  by code_simp

text \<open>
  Claim C9 as stated holds for every call of the builder. A retrieved document whose
  content is the Spanish directive makes the prompt built for \<^verbatim>\<open>es\<close> contain that
  directive twice, once in the document block and once in the language block.
\<close>

theorem directive_quoted_by_a_document_occurs_twice:
  "map_of LANGUAGE_PROMPTS ''es'' = Some spanish_directive \<and>
   doc_content quoting_doc = Some spanish_directive \<and>
   occurrences spanish_directive (fst (build_system_prompt [quoting_doc] ''es'')) = 2"
proof -
  have "doc_content quoting_doc = Some spanish_directive"
    by (simp add: quoting_doc_def)
  moreover have "occurrences spanish_directive (fst (build_system_prompt [quoting_doc] ''es'')) = 2"
    using prompt_count_directed(1) [OF spanish_template, of "[quoting_doc]"]
    by (simp add: quoting_context)
  ultimately show ?thesis
    by (simp add: spanish_template)
qed

section \<open>Eviction from a full store\<close>

lemma length_map_entry: "length (AList.map_entry k f xs) = length xs"
  by (induction xs) simp_all

lemma py_min_by_member:
  assumes "py_min_by f xs = Some m"
  shows "m \<in> set xs"
proof -
  have fold: "foldl (\<lambda>best y. if f y < f best then y else best) x ys \<in> set (x # ys)" for x ys
    by (induction ys arbitrary: x) auto
  show ?thesis
    using assms fold by (cases xs) (auto simp: py_min_by_def)
qed

lemma oldest_stored:
  assumes "oldest mem = Some k"
  shows "k \<in> fst ` set mem"
proof -
  obtain e where "py_min_by (\<lambda>e. updated (snd e)) mem = Some e" and "k = fst e"
    using assms by (auto simp: oldest_def)
  then show ?thesis
    using py_min_by_member by fastforce
qed

lemma length_delete_distinct:
  assumes "distinct (map fst xs)" and "k \<in> fst ` set xs"
  shows "length (AList.delete k xs) = length xs - 1"
  using assms
proof (induction xs)
  case Nil
  then show ?case by simp
next
  case (Cons p xs)
  show ?case
  proof (cases "fst p = k")
    case True
    then have "k \<notin> fst ` set xs"
      using Cons.prems(1) by auto
    then show ?thesis
      using True by (simp add: AList.delete_id)
  next
    case False
    then have "k \<in> fst ` set xs"
      using Cons.prems(2) by auto
    then have "xs \<noteq> []" by auto
    then show ?thesis
      using False Cons by (cases xs) (auto simp: AList.delete_eq)
  qed
qed

lemma evict_full:
  assumes "MAX_MEMORY_SESSIONS \<le> length mem" and "oldest mem = Some k"
  shows "evict_if_full mem = AList.delete k mem"
  using assms by (simp add: evict_if_full_def)

lemma length_save_to_session:
  assumes "sid \<noteq> []"
  shows "length (save_to_session sid r c now mem) =
     (if map_of (evict_if_full mem) sid = None then length (evict_if_full mem) + 1
      else length (evict_if_full mem))"
  using assms by (simp add: save_to_session_def Let_def length_map_entry init_if_new_def)

text \<open>
  What the eviction does when it runs: the evicted key is the first one, in insertion
  order, whose \<^verbatim>\<open>updated\<close> stamp is minimal; and the creation of a session under a new id
  keeps a full store at its size and grows a store that is not full by one.
\<close>

lemma fold_min_first_minimum:
  fixes f :: "'a \<Rightarrow> 'b::linorder"
  defines "g \<equiv> \<lambda>best y. if f y < f best then y else best"
  shows "\<exists>i < length (x # rest). (x # rest) ! i = foldl g x rest \<and>
     (\<forall>j < length (x # rest). f (foldl g x rest) \<le> f ((x # rest) ! j)) \<and>
     (\<forall>j < i. f (foldl g x rest) < f ((x # rest) ! j))"
proof (induction rest rule: rev_induct)
  case Nil
  then show ?case by simp
next
  case (snoc y rest)
  let ?xs = "x # rest"
  let ?m = "foldl g x rest"
  obtain i where i: "i < length ?xs" and at: "?xs ! i = ?m"
    and least: "\<forall>j < length ?xs. f ?m \<le> f (?xs ! j)"
    and first: "\<forall>j < i. f ?m < f (?xs ! j)"
    using snoc.IH by blast
  have nth_old: "(x # rest @ [y]) ! j = ?xs ! j" if "j < length ?xs" for j
    using that by (metis append_Cons nth_append)
  have nth_new: "(x # rest @ [y]) ! length ?xs = y"
    by (metis append_Cons nth_append_length)
  have last: "j < length (x # rest @ [y]) \<Longrightarrow> j < length ?xs \<or> j = length ?xs" for j
    by auto
  show ?case
  proof (cases "f y < f ?m")
    case True
    then have res: "foldl g x (rest @ [y]) = y"
      by (simp add: g_def)
    have "\<forall>j < length (x # rest @ [y]). f y \<le> f ((x # rest @ [y]) ! j)"
      using least True nth_old nth_new last by (metis less_le_trans less_imp_le order_refl)
    moreover have "\<forall>j < length ?xs. f y < f ((x # rest @ [y]) ! j)"
      using least True nth_old by (metis less_le_trans)
    ultimately show ?thesis
      unfolding res using nth_new by (intro exI [of _ "length ?xs"]) simp
  next
    case False
    then have res: "foldl g x (rest @ [y]) = ?m"
      by (simp add: g_def)
    have "\<forall>j < length (x # rest @ [y]). f ?m \<le> f ((x # rest @ [y]) ! j)"
      using least False nth_old nth_new last by (metis not_less)
    moreover have "\<forall>j < i. f ?m < f ((x # rest @ [y]) ! j)"
      using first i nth_old by (metis less_trans)
    moreover have "(x # rest @ [y]) ! i = ?m"
      using at i nth_old by simp
    ultimately show ?thesis
      unfolding res using i by (intro exI [of _ i]) simp
  qed
qed

lemma oldest_first_minimum:
  assumes "oldest mem = Some k"
  shows "\<exists>i < length mem. fst (mem ! i) = k \<and>
     (\<forall>j < length mem. updated (snd (mem ! i)) \<le> updated (snd (mem ! j))) \<and>
     (\<forall>j < i. updated (snd (mem ! i)) < updated (snd (mem ! j)))"
proof (cases mem)
  case Nil
  then show ?thesis using assms by (simp add: oldest_def py_min_by_def)
next
  case (Cons x rest)
  let ?g = "\<lambda>best y. if updated (snd y) < updated (snd best) then y else best"
  have k: "k = fst (foldl ?g x rest)"
    using assms Cons by (auto simp: oldest_def py_min_by_def)
  obtain i where "i < length (x # rest)" and "(x # rest) ! i = foldl ?g x rest"
    and "\<forall>j < length (x # rest). updated (snd (foldl ?g x rest)) \<le> updated (snd ((x # rest) ! j))"
    and "\<forall>j < i. updated (snd (foldl ?g x rest)) < updated (snd ((x # rest) ! j))"
    using fold_min_first_minimum [where f = "\<lambda>e. updated (snd e)" and x = x and rest = rest]
    by blast
  then show ?thesis
    unfolding Cons k by (intro exI [of _ i]) simp
qed

lemma oldest_of_nonempty: "mem \<noteq> [] \<Longrightarrow> \<exists>k. oldest mem = Some k"
  by (cases mem) (simp_all add: oldest_def py_min_by_def)

lemma creation_keeps_count:
  assumes "sid \<noteq> []" and "map_of mem sid = None" and "distinct (map fst mem)"
  shows "length (save_to_session sid r c now mem) =
     (if MAX_MEMORY_SESSIONS \<le> length mem then length mem else length mem + 1)"
proof (cases "MAX_MEMORY_SESSIONS \<le> length mem")
  case True
  then have "mem \<noteq> []"
    by (auto simp: MAX_MEMORY_SESSIONS_def)
  then obtain k where k: "oldest mem = Some k"
    using oldest_of_nonempty by blast
  have ev: "evict_if_full mem = AList.delete k mem"
    using True k by (rule evict_full)
  have "length (AList.delete k mem) = length mem - 1"
    using assms(3) oldest_stored [OF k] by (rule length_delete_distinct)
  moreover have "map_of (AList.delete k mem) sid = None"
    using assms(2) by (simp add: AList.delete_conv')
  moreover have "0 < length mem"
    using \<open>mem \<noteq> []\<close> by simp
  ultimately show ?thesis
    using True by (simp add: length_save_to_session [OF assms(1)] ev)
next
  case False
  then show ?thesis
    using assms(2) by (simp add: length_save_to_session [OF assms(1)] evict_if_full_small)
qed

text \<open>
  Claim C1 at the inputs on which the code departs from it. \<^verbatim>\<open>save_to_session\<close> tests the
  size of the store before it looks whether the id is stored. So an append to a session
  that is already stored, made when the store is full, evicts the oldest session: when
  that is another session, it is removed and the store is left one short of its limit;
  when it is the very session appended to, that session is deleted and created anew, and
  its history is the new message alone.
\<close>

theorem append_to_stored_session_evicts:
  assumes "sid \<noteq> []" and "map_of mem sid \<noteq> None"
    and "MAX_MEMORY_SESSIONS \<le> length mem" and "distinct (map fst mem)"
    and "oldest mem = Some k"
  shows "(k \<noteq> sid \<longrightarrow>
            map_of mem k \<noteq> None \<and>
            map_of (save_to_session sid r c now mem) k = None \<and>
            length (save_to_session sid r c now mem) = length mem - 1) \<and>
         (k = sid \<longrightarrow>
            get_session_history sid (save_to_session sid r c now mem) =
              [\<lparr>role = r, content = c, timestamp = at_message now\<rparr>] \<and>
            length (save_to_session sid r c now mem) = length mem)"
proof -
  have ev: "evict_if_full mem = AList.delete k mem"
    using assms(3,5) by (rule evict_full)
  have stored: "k \<in> fst ` set mem"
    using assms(5) by (rule oldest_stored)
  have len: "length (AList.delete k mem) = length mem - 1"
    using assms(4) stored by (rule length_delete_distinct)
  have pos: "0 < length mem"
    using stored by auto
  have other: "map_of mem k \<noteq> None \<and>
      map_of (save_to_session sid r c now mem) k = None \<and>
      length (save_to_session sid r c now mem) = length mem - 1"
    if "k \<noteq> sid"
  proof -
    have "map_of (AList.delete k mem) sid = map_of mem sid"
      using that by simp
    then have kept: "map_of (evict_if_full mem) sid \<noteq> None"
      using assms(2) ev by simp
    have "map_of (save_to_session sid r c now mem) k = None"
      using that by (simp add: map_of_save_to_session [OF assms(1)] ev AList.delete_conv')
    moreover have "length (save_to_session sid r c now mem) = length mem - 1"
      using kept len by (simp add: length_save_to_session [OF assms(1)] ev)
    moreover have "map_of mem k \<noteq> None"
      using stored by (simp add: map_of_eq_None_iff)
    ultimately show ?thesis by blast
  qed
  have self: "get_session_history sid (save_to_session sid r c now mem) =
        [\<lparr>role = r, content = c, timestamp = at_message now\<rparr>] \<and>
      length (save_to_session sid r c now mem) = length mem"
    if "k = sid"
  proof -
    have gone: "map_of (evict_if_full mem) sid = None"
      using that ev by (simp add: AList.delete_conv')
    have "get_session_history sid (save_to_session sid r c now mem) =
        messages (stored (new_session now) r c now)"
      using assms(1) gone by (simp add: get_session_history_def map_of_save_to_session)
    also have "\<dots> = [\<lparr>role = r, content = c, timestamp = at_message now\<rparr>]"
      by (simp add: messages_stored new_session_def last_n_short MAX_MESSAGES_PER_SESSION_def)
    finally have "get_session_history sid (save_to_session sid r c now mem) =
        [\<lparr>role = r, content = c, timestamp = at_message now\<rparr>]" .
    moreover have "length (save_to_session sid r c now mem) = length mem"
      using gone len pos by (simp add: length_save_to_session [OF assms(1)] ev)
    ultimately show ?thesis by blast
  qed
  from other self show ?thesis by blast
qed


lemma dec_value_digit: "d < 10 \<Longrightarrow> dec_value [digit_char d] = d"
proof -
  assume "d < 10"
  then have "d = 0 \<or> d = 1 \<or> d = 2 \<or> d = 3 \<or> d = 4 \<or> d = 5 \<or> d = 6 \<or> d = 7 \<or>
      d = 8 \<or> d = 9"
    by arith
  moreover have "dec_value [digit_char 0] = 0" "dec_value [digit_char 1] = 1"
    "dec_value [digit_char 2] = 2" "dec_value [digit_char 3] = 3"
    "dec_value [digit_char 4] = 4" "dec_value [digit_char 5] = 5"
    "dec_value [digit_char 6] = 6" "dec_value [digit_char 7] = 7"
    "dec_value [digit_char 8] = 8" "dec_value [digit_char 9] = 9"
    by (simp_all add: dec_value_def digit_char_def)
  ultimately show ?thesis by blast
qed

lemma dec_value_snoc: "dec_value (s @ [c]) = 10 * dec_value s + dec_value [c]"
  by (simp add: dec_value_def)

lemma dec_value_str_nat: "dec_value (str_nat n) = n"
proof (induction n rule: str_nat.induct)
  case (1 n)
  show ?case
  proof (cases "n < 10")
    case True
    then show ?thesis
      by (simp add: str_nat.simps [of n] dec_value_digit)
  next
    case False
    then have "dec_value (str_nat n) = 10 * dec_value (str_nat (n div 10)) +
        dec_value [digit_char (n mod 10)]"
      by (simp add: str_nat.simps [of n] dec_value_snoc)
    then show ?thesis
      using False "1.IH" by (simp add: dec_value_digit)
  qed
qed

lemma session_name_inj: "session_name i = session_name j \<Longrightarrow> i = j"
proof -
  assume "session_name i = session_name j"
  then have "str_nat i = str_nat j"
    by (simp add: session_name_def)
  then have "dec_value (str_nat i) = dec_value (str_nat j)"
    by simp
  then show "i = j"
    by (simp add: dec_value_str_nat)
qed

lemma full_store_keys: "map fst full_store = map session_name [0..<1000]"
  by (simp add: full_store_def comp_def)

lemma full_store_distinct: "distinct (map fst full_store)"
  unfolding full_store_keys
  by (simp add: distinct_map inj_on_def) (blast dest: session_name_inj)

lemma full_store_length: "length full_store = MAX_MEMORY_SESSIONS"
  by (simp add: full_store_def MAX_MEMORY_SESSIONS_def)

lemma full_store_lookup:
  assumes "i < 1000"
  shows "map_of full_store (session_name i) = Some (greeted_session i)"
proof -
  have "(session_name i, greeted_session i) \<in> set full_store"
    using assms by (auto simp: full_store_def)
  then show ?thesis
    using full_store_distinct by (rule map_of_is_SomeI [rotated])
qed

lemma py_min_by_first:
  assumes "\<forall>y \<in> set rest. \<not> f y < f x"
  shows "py_min_by f (x # rest) = Some x"
proof -
  have "foldl (\<lambda>best y. if f y < f best then y else best) x rest = x"
    using assms by (induction rest) simp_all
  then show ?thesis by (simp add: py_min_by_def)
qed

lemma greeting_stamp_order: "0 < i \<Longrightarrow> \<not> greeting_stamp i < greeting_stamp 0"
  by (simp add: greeting_stamp_def)

lemma full_store_oldest: "oldest full_store = Some (session_name 0)"
proof -
  have "[0..<1000] = 0 # [1..<1000]"
    using upt_rec [of 0 1000] by simp
  then have split: "full_store =
      (session_name 0, greeted_session 0) #
      map (\<lambda>i. (session_name i, greeted_session i)) [1..<1000]"
    by (simp add: full_store_def)
  have stamp: "updated (greeted_session i) = greeting_stamp i" for i
    by (simp add: greeted_session_def)
  have late: "\<forall>y \<in> set (map (\<lambda>i. (session_name i, greeted_session i)) [1..<1000]).
      \<not> updated (snd y) < updated (snd (session_name 0, greeted_session 0))"
  proof
    fix y
    assume "y \<in> set (map (\<lambda>i. (session_name i, greeted_session i)) [1..<1000])"
    then have "y \<in> (\<lambda>i. (session_name i, greeted_session i)) ` set [1..<1000]"
      by (simp only: set_map)
    then obtain i where range: "i \<in> set [1..<1000]"
      and y: "y = (session_name i, greeted_session i)"
      by (rule imageE)
    from range have "0 < i"
      by simp
    then show "\<not> updated (snd y) < updated (snd (session_name 0, greeted_session 0))"
      using greeting_stamp_order by (simp add: y stamp)
  qed
  have "py_min_by (\<lambda>e. updated (snd e)) full_store = Some (session_name 0, greeted_session 0)"
    unfolding split by (rule py_min_by_first [OF late])
  then show ?thesis
    by (simp add: oldest_def)
qed

text \<open>The full store is reached from the empty store by the thousand greeting calls.\<close>

lemma map_entry_new:
  assumes "map_of mem sid = None"
  shows "AList.map_entry sid f (mem @ [(sid, v)]) = mem @ [(sid, f v)]"
  using assms by (induction mem) (auto split: if_splits)

lemma creation_appends:
  assumes "sid \<noteq> []" and "map_of mem sid = None" and "length mem < MAX_MEMORY_SESSIONS"
  shows "save_to_session sid r c now mem = mem @ [(sid, stored (new_session now) r c now)]"
  using assms
  by (simp add: save_to_session_def Let_def evict_if_full_small init_if_new_def map_entry_new
      stored_def)

lemma greeting_stored:
  "stored (new_session (call_now (greeting_call i))) (call_role (greeting_call i))
     (call_content (greeting_call i)) (call_now (greeting_call i)) = greeted_session i"
  by (simp add: stored_def trim_def new_session_def greeted_session_def turn_of_def
      greeting_call_def MAX_MESSAGES_PER_SESSION_def)

lemma greetings_reach:
  assumes "n \<le> 1000"
  shows "run_appends (map greeting_call [0..<n]) [] =
     map (\<lambda>i. (session_name i, greeted_session i)) [0..<n]"
  using assms
proof (induction n)
  case 0
  then show ?case by (simp add: run_appends_def)
next
  case (Suc n)
  let ?mem = "map (\<lambda>i. (session_name i, greeted_session i)) [0..<n]"
  have before: "run_appends (map greeting_call [0..<n]) [] = ?mem"
    using Suc by simp
  have name: "session_name n \<noteq> []"
    by (simp add: session_name_def)
  have "session_name n \<notin> fst ` set ?mem"
  proof
    assume "session_name n \<in> fst ` set ?mem"
    then obtain i where "i < n" and "session_name n = session_name i"
      by (auto simp: image_iff)
    then show False
      using session_name_inj by fastforce
  qed
  then have new: "map_of ?mem (session_name n) = None"
    by (subst map_of_eq_None_iff)
  have room: "length ?mem < MAX_MEMORY_SESSIONS"
    using Suc.prems by (simp add: MAX_MEMORY_SESSIONS_def)
  have "apply_append ?mem (greeting_call n) = ?mem @ [(session_name n, greeted_session n)]"
    unfolding apply_append_def
    using creation_appends [OF name new room] greeting_stored [of n]
    by (simp add: greeting_call_def)
  then show ?case
    by (simp add: run_appends_def before [unfolded run_appends_def])
qed

lemma full_store_reached: "run_appends (map greeting_call [0..<1000]) [] = full_store"
  by (simp add: greetings_reach full_store_def)

lemma session_names: "session_name 0 = ''s0''" "session_name 5 = ''s5''"
  by (simp_all add: session_name_def str_nat.simps digit_char_def)

theorem append_to_stored_session_evicts_witness:
  "session_name 0 = ''s0'' \<and> session_name 5 = ''s5'' \<and>
   length full_store = MAX_MEMORY_SESSIONS \<and>
   distinct (map fst full_store) \<and>
   oldest full_store = Some ''s0'' \<and>
   map_of full_store ''s5'' = Some (greeted_session 5) \<and>
   map_of full_store ''s0'' = Some (greeted_session 0) \<and>
   map_of (save_to_session ''s5'' ''user'' ''hi'' sample_now full_store) ''s0'' = None \<and>
   length (save_to_session ''s5'' ''user'' ''hi'' sample_now full_store) = 999 \<and>
   get_session_history ''s0'' full_store = messages (greeted_session 0) \<and>
   get_session_history ''s0'' (save_to_session ''s0'' ''user'' ''hi'' sample_now full_store) =
     [\<lparr>role = ''user'', content = ''hi'', timestamp = ''2025-01-01T10:00:00''\<rparr>] \<and>
   run_appends (map greeting_call [0..<1000]) [] = full_store"
proof -
  have full: "MAX_MEMORY_SESSIONS \<le> length full_store"
    by (simp add: full_store_length)
  have s5: "map_of full_store ''s5'' = Some (greeted_session 5)"
    using full_store_lookup [of 5] by (simp add: session_names)
  have s0: "map_of full_store ''s0'' = Some (greeted_session 0)"
    using full_store_lookup [of 0] by (simp add: session_names)
  have old: "oldest full_store = Some ''s0''"
    using full_store_oldest by (simp add: session_names)
  have ne: "(''s0'' :: string) \<noteq> ''s5''" "(''s5'' :: string) \<noteq> []" "(''s0'' :: string) \<noteq> []"
    by simp_all
  have stored5: "map_of full_store ''s5'' \<noteq> None" and stored0: "map_of full_store ''s0'' \<noteq> None"
    by (simp_all add: s5 s0)
  have other: "map_of (save_to_session ''s5'' ''user'' ''hi'' sample_now full_store) ''s0'' = None \<and>
      length (save_to_session ''s5'' ''user'' ''hi'' sample_now full_store) =
        length full_store - 1"
    using append_to_stored_session_evicts [OF ne(2) stored5 full full_store_distinct old,
        of "''user''" "''hi''" sample_now] ne(1)
    by blast
  have self: "get_session_history ''s0''
        (save_to_session ''s0'' ''user'' ''hi'' sample_now full_store) =
      [\<lparr>role = ''user'', content = ''hi'', timestamp = at_message sample_now\<rparr>]"
    using append_to_stored_session_evicts [OF ne(3) stored0 full full_store_distinct old,
        of "''user''" "''hi''" sample_now]
    by blast
  have before: "get_session_history ''s0'' full_store = messages (greeted_session 0)"
    by (simp add: get_session_history_def s0)
  have stamp: "at_message sample_now = ''2025-01-01T10:00:00''"
    by (simp add: sample_now_def)
  show ?thesis
    using other self before old s5 s0 full_store_distinct full_store_reached
    by (simp add: session_names full_store_length stamp MAX_MEMORY_SESSIONS_def)
qed


end
